theory Spec2Isabelle
  imports Main "HOL-Library.Sublist" "HOL-Library.AList"
begin

section \<open>JavaScript strings\<close>

text \<open>
  A JavaScript string is modelled as a \<^typ>\<open>string\<close>: the list of its UTF-16 code units,
  restricted to the code units below 256 (Latin-1). All the literals the generator compares
  against are ASCII.
\<close>

text \<open>\<^verbatim>\<open>String.prototype.toLowerCase\<close> on one code unit: A-Z and the Latin-1 capitals
  (U+00C0..U+00DE without the multiplication sign U+00D7) move up by 32.\<close>

definition toLowerChar :: "char \<Rightarrow> char" where
  "toLowerChar c =
     (let n = (of_char c :: nat) in
      if (65 \<le> n \<and> n \<le> 90) \<or> (192 \<le> n \<and> n \<le> 222 \<and> n \<noteq> 215)
      then char_of (n + 32) else c)"

definition toLowerCase :: "string \<Rightarrow> string" where
  "toLowerCase s = map toLowerChar s"

text \<open>\<^verbatim>\<open>String.prototype.toUpperCase\<close> on one code unit: a-z and the Latin-1 small letters
  (U+00E0..U+00FE without the division sign U+00F7) move down by 32, and the sharp s
  (U+00DF) becomes the two letters SS. The capitals of U+00B5 and U+00FF lie outside
  Latin-1; they are not ASCII, so these two code units are kept as they are.\<close>

definition toUpperChar :: "char \<Rightarrow> string" where
  "toUpperChar c =
     (let n = (of_char c :: nat) in
      if (97 \<le> n \<and> n \<le> 122) \<or> (224 \<le> n \<and> n \<le> 254 \<and> n \<noteq> 247)
      then [char_of (n - 32)]
      else if n = 223 then ''SS''
      else [c])"

definition toUpperCase :: "string \<Rightarrow> string" where
  "toUpperCase s = concat (map toUpperChar s)"

text \<open>\<^verbatim>\<open>s.includes(tok)\<close>: \<open>tok\<close> occurs in \<open>s\<close> as a contiguous run.\<close>

definition includesStr :: "string \<Rightarrow> string \<Rightarrow> bool" where
  "includesStr s tok = sublist tok s"

section \<open>Type mapper\<close>

text \<open>The bind-types of the database driver that the generator uses.\<close>

datatype sqlLength = LenMax | Len int

datatype mssqlType =
    NVarChar sqlLength
  | SqlInt
  | SqlBigInt
  | SqlBit
  | SqlDecimal int int
  | SqlFloat
  | SqlDateTime

text \<open>A row of \<^verbatim>\<open>INFORMATION_SCHEMA.COLUMNS\<close> as \<^verbatim>\<open>getColumns\<close> selects it.
  \<open>CHARACTER_MAXIMUM_LENGTH\<close> is \<open>None\<close> where the catalog reports \<^verbatim>\<open>null\<close>.\<close>

record column =
  COLUMN_NAME :: string
  DATA_TYPE :: string
  IS_NULLABLE :: string
  CHARACTER_MAXIMUM_LENGTH :: "int option"

text \<open>\<^verbatim>\<open>mapSqlTypeToMssqlType(col)\<close>, the bind-type of a column; the tests are in the
  order of the source.\<close>

definition mapSqlTypeToMssqlType :: "column \<Rightarrow> mssqlType" where
  "mapSqlTypeToMssqlType col =
     (let t = toLowerCase (DATA_TYPE col) in
      if includesStr t ''char'' \<or> t = ''text'' \<or> t = ''ntext'' then
        (case CHARACTER_MAXIMUM_LENGTH col of
           None \<Rightarrow> NVarChar LenMax
         | Some n \<Rightarrow> if n \<noteq> 0 \<and> n > 0 then NVarChar (Len n) else NVarChar LenMax)
      else if includesStr t ''int'' then SqlInt
      else if t = ''bigint'' then SqlBigInt
      else if t = ''bit'' then SqlBit
      else if includesStr t ''decimal'' \<or> t = ''numeric'' then SqlDecimal 18 4
      else if includesStr t ''float'' \<or> t = ''real'' then SqlFloat
      else if includesStr t ''date'' \<or> includesStr t ''time'' then SqlDateTime
      else if t = ''uniqueidentifier'' then NVarChar (Len 50)
      else NVarChar LenMax)"

text \<open>The schema-description type: \<^verbatim>\<open>{ type, format? }\<close>.\<close>

record openApiType =
  oaType :: string
  oaFormat :: "string option"

text \<open>\<^verbatim>\<open>toOpenApiType(col)\<close>, the schema-description type of a column.\<close>

definition toOpenApiType :: "column \<Rightarrow> openApiType" where
  "toOpenApiType col =
     (let t = toLowerCase (DATA_TYPE col) in
      if includesStr t ''int'' then \<lparr>oaType = ''integer'', oaFormat = None\<rparr>
      else if t = ''bigint'' then \<lparr>oaType = ''integer'', oaFormat = Some ''int64''\<rparr>
      else if t = ''bit'' then \<lparr>oaType = ''boolean'', oaFormat = None\<rparr>
      else if includesStr t ''float'' \<or> t = ''real'' \<or> includesStr t ''decimal'' \<or> t = ''numeric''
        then \<lparr>oaType = ''number'', oaFormat = None\<rparr>
      else if includesStr t ''date'' \<or> includesStr t ''time''
        then \<lparr>oaType = ''string'', oaFormat = Some ''date-time''\<rparr>
      else \<lparr>oaType = ''string'', oaFormat = None\<rparr>)"

text \<open>\<^verbatim>\<open>mapTypeNameToMssql(typeName, maxLength, precision, scale)\<close>, the bind-type of a
  procedure or function parameter. \<^verbatim>\<open>precision || 18\<close> and \<^verbatim>\<open>scale || 4\<close> replace a zero.\<close>

definition mapTypeNameToMssql :: "string \<Rightarrow> int \<Rightarrow> int \<Rightarrow> int \<Rightarrow> mssqlType" where
  "mapTypeNameToMssql typeName maxLength precision scale =
     (let t = toLowerCase typeName in
      if includesStr t ''char'' \<or> t = ''text'' \<or> t = ''ntext'' then
        NVarChar (if maxLength \<noteq> 0 \<and> maxLength > 0 then Len maxLength else LenMax)
      else if includesStr t ''int'' \<and> t \<noteq> ''bigint'' then SqlInt
      else if t = ''bigint'' then SqlBigInt
      else if t = ''bit'' then SqlBit
      else if includesStr t ''decimal'' \<or> t = ''numeric''
        then SqlDecimal (if precision \<noteq> 0 then precision else 18) (if scale \<noteq> 0 then scale else 4)
      else if includesStr t ''float'' \<or> t = ''real'' then SqlFloat
      else if includesStr t ''date'' \<or> includesStr t ''time'' then SqlDateTime
      else if t = ''uniqueidentifier'' then NVarChar (Len 50)
      else NVarChar LenMax)"

text \<open>\<^verbatim>\<open>toOpenApiTypeFromSqlName(typeName)\<close>, the schema-description type of a parameter.\<close>

definition toOpenApiTypeFromSqlName :: "string \<Rightarrow> openApiType" where
  "toOpenApiTypeFromSqlName typeName =
     (let t = toLowerCase typeName in
      if includesStr t ''int'' then \<lparr>oaType = ''integer'', oaFormat = None\<rparr>
      else if t = ''bigint'' then \<lparr>oaType = ''integer'', oaFormat = Some ''int64''\<rparr>
      else if t = ''bit'' then \<lparr>oaType = ''boolean'', oaFormat = None\<rparr>
      else if includesStr t ''float'' \<or> t = ''real'' \<or> includesStr t ''decimal'' \<or> t = ''numeric''
        then \<lparr>oaType = ''number'', oaFormat = None\<rparr>
      else if includesStr t ''date'' \<or> includesStr t ''time''
        then \<lparr>oaType = ''string'', oaFormat = Some ''date-time''\<rparr>
      else if t = ''uniqueidentifier'' then \<lparr>oaType = ''string'', oaFormat = Some ''uuid''\<rparr>
      else \<lparr>oaType = ''string'', oaFormat = None\<rparr>)"

section \<open>JavaScript values\<close>

text \<open>The exceptions of the generator's own code: the \<^verbatim>\<open>Error\<close> that
  \<^verbatim>\<open>substituteTemplate\<close> throws for a missing variable, a \<^verbatim>\<open>TypeError\<close> of the engine, and
  any other error by its message.\<close>

datatype jserror =
    MissingVariable string
  | TypeError
  | RequestError string

subsection \<open>Numbers\<close>

text \<open>A Number that a handler computes: every one of them comes from \<^verbatim>\<open>parseInt\<close>, so it is
  \<^verbatim>\<open>NaN\<close>, an infinity, or a double with an integer value. \<open>Finite n\<close> is the double
  whose value is \<open>n\<close>; the negative zero compares and prints as zero and is \<open>Finite 0\<close>.\<close>

datatype jsNumber = NaN | PosInfinity | NegInfinity | Finite int

text \<open>The number of bits of a positive integer.\<close>

function bitLength :: "int \<Rightarrow> nat" where
  "bitLength n = (if n \<le> 0 then 0 else bitLength (n div 2) + 1)"
  by pat_completeness auto
termination
  by (relation "measure nat") auto

text \<open>The Number value for an integer \<open>a\<close> that is not negative: the nearest number with
  a significand of 53 bits, a tie going to the even significand; \<open>None\<close> where that is
  \<open>2 ^ 1024\<close>, which is the infinity.\<close>

definition roundMagnitude :: "int \<Rightarrow> int option" where
  "roundMagnitude a =
     (if a < 2 ^ 53 then Some a
      else (let e = bitLength a - 53;
                q = a div 2 ^ e;
                r = a mod 2 ^ e;
                q' = (if 2 * r > 2 ^ e \<or> (2 * r = 2 ^ e \<and> odd q) then q + 1 else q);
                v = q' * 2 ^ e
            in if v \<ge> 2 ^ 1024 then None else Some v))"

definition toNumber :: "int \<Rightarrow> jsNumber" where
  "toNumber x =
     (case roundMagnitude \<bar>x\<bar> of
        None \<Rightarrow> if x < 0 then NegInfinity else PosInfinity
      | Some v \<Rightarrow> Finite (if x < 0 then - v else v))"

text \<open>The decimal digits of an integer that is not negative.\<close>

function digitsOf :: "int \<Rightarrow> string" where
  "digitsOf n =
     (if n < 10 then [''0123456789'' ! nat n]
      else digitsOf (n div 10) @ [''0123456789'' ! nat (n mod 10)])"
  by pat_completeness auto
termination
  by (relation "measure nat") auto

text \<open>\<^verbatim>\<open>Number::toString\<close> for a double with the value \<open>a\<close>, not negative. It prints the
  decimal with the fewest significant digits whose Number value is \<open>a\<close>: with \<open>k\<close>
  significant digits the two candidates are the multiples of the \<open>k\<close>-th digit's unit
  around \<open>a\<close>; of two that fit the nearer is taken, of two equally near the one with the
  even last digit. Up to 21 digits are printed in full, a longer number in exponent
  form.\<close>

definition candidate :: "int \<Rightarrow> nat \<Rightarrow> int option" where
  "candidate a k =
     (let p = 10 ^ (length (digitsOf a) - k);
          lo = (a div p) * p;
          hi = lo + p;
          okLo = (roundMagnitude lo = Some a);
          okHi = (roundMagnitude hi = Some a)
      in if okLo \<and> okHi then
           Some (if a - lo < hi - a then lo
                 else if hi - a < a - lo then hi
                 else if even (a div p) then lo else hi)
         else if okLo then Some lo
         else if okHi then Some hi
         else None)"

definition shortestDecimal :: "int \<Rightarrow> int" where
  "shortestDecimal a =
     (if a < 2 ^ 53 then a
      else (case List.map_filter (candidate a) [1..<Suc (length (digitsOf a))] of
              [] \<Rightarrow> a
            | c # _ \<Rightarrow> c))"

definition magnitudeToString :: "int \<Rightarrow> string" where
  "magnitudeToString a =
     (let ds = digitsOf (shortestDecimal a); n = length ds
      in if n \<le> 21 then ds
         else (case rev (dropWhile (\<lambda>c. c = CHR ''0'') (rev ds)) of
                 [] \<Rightarrow> []
               | d # ds' \<Rightarrow> d # (if ds' = [] then [] else CHR ''.'' # ds'))
              @ ''e+'' @ digitsOf (int (n - 1)))"

text \<open>\<^verbatim>\<open>String(x)\<close> for the double with the integer value \<open>x\<close>.\<close>

definition numberToString :: "int \<Rightarrow> string" where
  "numberToString x =
     (if x < 0 then CHR ''-'' # magnitudeToString (- x) else magnitudeToString x)"

subsection \<open>Values of a request body\<close>

text \<open>A value that a property of a request body can hold. \<open>JNum t\<close> is the number that
  \<^verbatim>\<open>String\<close> prints as \<open>t\<close> (\<open>5\<close>, \<open>-2.5\<close>, \<open>1e+21\<close>): the generator never computes with a
  number of the body, it only prints it or hands it to the driver. \<open>JObj\<close> holds the own
  properties of an object made by \<^verbatim>\<open>JSON.parse\<close>, whose values are JSON values.
  \<open>JFunction\<close> is a function, given by the text that \<^verbatim>\<open>String\<close> makes of it: a parsed
  body inherits the methods of \<^verbatim>\<open>Object.prototype\<close>.\<close>

datatype jsvalue =
    JUndefined
  | JNull
  | JBool bool
  | JNum string
  | JStr string
  | JArr "jsvalue list"
  | JObj "(string \<times> jsvalue) list"
  | JFunction string

text \<open>An object as its property lookup: \<open>obj k = None\<close> exactly when \<^verbatim>\<open>k in obj\<close> is
  false, that is when \<open>k\<close> is neither an own nor an inherited property.\<close>

type_synonym jsobject = "string \<rightharpoonup> jsvalue"

text \<open>\<^verbatim>\<open>obj[k]\<close>: \<^verbatim>\<open>undefined\<close> for a missing key.\<close>

definition getProp :: "jsobject \<Rightarrow> string \<Rightarrow> jsvalue" where
  "getProp obj k = (case obj k of None \<Rightarrow> JUndefined | Some v \<Rightarrow> v)"

text \<open>\<^verbatim>\<open>arr.join(sep)\<close> on strings.\<close>

fun joinStr :: "string \<Rightarrow> string list \<Rightarrow> string" where
  "joinStr sep [] = []"
| "joinStr sep [x] = x"
| "joinStr sep (x # y # ys) = x @ sep @ joinStr sep (y # ys)"

text \<open>The results of a list of conversions, or the first exception among them.\<close>

fun allOrError :: "(jserror + 'a) list \<Rightarrow> jserror + 'a list" where
  "allOrError [] = Inr []"
| "allOrError (Inl e # rs) = Inl e"
| "allOrError (Inr x # rs) = (case allOrError rs of Inl e \<Rightarrow> Inl e | Inr xs \<Rightarrow> Inr (x # xs))"

text \<open>\<^verbatim>\<open>String(v)\<close>, which can throw. An array joins the strings of its elements with
  commas, where \<^verbatim>\<open>null\<close> and \<^verbatim>\<open>undefined\<close> elements give the empty string. An object of a
  JSON body prints as \<open>[object Object]\<close> through the inherited \<^verbatim>\<open>toString\<close>; when it has
  an own property \<open>toString\<close>, that value is not callable, the inherited \<^verbatim>\<open>valueOf\<close>
  returns the object itself (an own \<open>valueOf\<close> is not callable either), and the
  conversion throws a \<^verbatim>\<open>TypeError\<close>.\<close>

fun toStringJS :: "jsvalue \<Rightarrow> jserror + string" where
  "toStringJS JUndefined = Inr ''undefined''"
| "toStringJS JNull = Inr ''null''"
| "toStringJS (JBool b) = Inr (if b then ''true'' else ''false'')"
| "toStringJS (JNum t) = Inr t"
| "toStringJS (JStr s) = Inr s"
| "toStringJS (JArr xs) =
     (case allOrError
             (map (\<lambda>x. if x = JUndefined \<or> x = JNull then Inr [] else toStringJS x) xs) of
        Inl e \<Rightarrow> Inl e
      | Inr parts \<Rightarrow> Inr (joinStr '','' parts))"
| "toStringJS (JObj kvs) =
     (if ''toString'' \<in> fst ` set kvs then Inl TypeError else Inr ''[object Object]'')"
| "toStringJS (JFunction src) = Inr src"

text \<open>The character classes of the regular expressions: \<^verbatim>\<open>\s\<close> (the white space and line
  terminators below 256), \<^verbatim>\<open>[a-zA-Z0-9_]\<close> and \<^verbatim>\<open>\d\<close>.\<close>

definition isSpace :: "char \<Rightarrow> bool" where
  "isSpace c = ((of_char c :: nat) \<in> {9, 10, 11, 12, 13, 32, 160})"

definition isDigit :: "char \<Rightarrow> bool" where
  "isDigit c = (let n = (of_char c :: nat) in 48 \<le> n \<and> n \<le> 57)"

definition isWordChar :: "char \<Rightarrow> bool" where
  "isWordChar c =
     (let n = (of_char c :: nat) in
      (97 \<le> n \<and> n \<le> 122) \<or> (65 \<le> n \<and> n \<le> 90) \<or> (48 \<le> n \<and> n \<le> 57) \<or> n = 95)"

text \<open>\<^verbatim>\<open>parseInt(s, 10)\<close> on a string: leading white space, an optional sign, then the
  longest run of decimal digits; \<^verbatim>\<open>NaN\<close> when there is no digit, else the Number value
  of the integer that the digits write. The language lets an engine replace the digits
  after the twentieth by zeros before it rounds; Node's engine rounds the exact integer,
  and so does this definition.\<close>

definition digitsToInt :: "string \<Rightarrow> int" where
  "digitsToInt ds = foldl (\<lambda>a c. 10 * a + (of_char c - 48)) 0 ds"

definition parseInt :: "string \<Rightarrow> jsNumber" where
  "parseInt s =
     (let t = dropWhile isSpace s;
          neg = (t \<noteq> [] \<and> hd t = CHR ''-'');
          u = (if t \<noteq> [] \<and> (hd t = CHR ''-'' \<or> hd t = CHR ''+'') then tl t else t);
          ds = takeWhile isDigit u
      in if ds = [] then NaN
         else toNumber (if neg then - digitsToInt ds else digitsToInt ds))"

section \<open>Advanced template executor\<close>

text \<open>One attempt of \<^verbatim>\<open>/{{\s*([a-zA-Z0-9_]+)\s*}}/\<close> at the start of \<open>s\<close>: the captured key and
  the text after the match. White space, word characters and the closing brace are
  pairwise disjoint, so the greedy runs are the only way to match and no backtracking
  finds another.\<close>

definition matchPlaceholder :: "string \<Rightarrow> (string \<times> string) option" where
  "matchPlaceholder s =
     (case s of
        c1 # c2 # r1 \<Rightarrow>
          if c1 = CHR ''{'' \<and> c2 = CHR ''{'' then
            (let r2 = dropWhile isSpace r1;
                 key = takeWhile isWordChar r2;
                 r3 = dropWhile isSpace (dropWhile isWordChar r2)
             in if key = [] then None
                else (case r3 of
                        d1 # d2 # rest \<Rightarrow>
                          if d1 = CHR ''}'' \<and> d2 = CHR ''}'' then Some (key, rest) else None
                      | _ \<Rightarrow> None))
          else None
      | _ \<Rightarrow> None)"

text \<open>\<^verbatim>\<open>/^\d+(\.\d+)?$/.test(s)\<close>.\<close>

definition isDecimal :: "string \<Rightarrow> bool" where
  "isDecimal s =
     (let ip = takeWhile isDigit s; rest = dropWhile isDigit s
      in ip \<noteq> [] \<and>
         (case rest of
            [] \<Rightarrow> True
          | c # frac \<Rightarrow> c = CHR ''.'' \<and> frac \<noteq> [] \<and> list_all isDigit frac))"

text \<open>\<^verbatim>\<open>s.replace(/'/g, "''")\<close>.\<close>

definition escapeQuotes :: "string \<Rightarrow> string" where
  "escapeQuotes s = concat (map (\<lambda>c. if c = CHR 0x27 then [CHR 0x27, CHR 0x27] else [c]) s)"

text \<open>The replacement callback of \<^verbatim>\<open>substituteTemplate\<close>, for a key that is present:
  its text, or the exception that \<^verbatim>\<open>String(v)\<close> throws.\<close>

definition renderValue :: "jsvalue \<Rightarrow> jserror + string" where
  "renderValue v =
     (if v = JNull \<or> v = JUndefined then Inr ''NULL''
      else (case v of
              JNum t \<Rightarrow> toStringJS v
            | _ \<Rightarrow> (case toStringJS v of
                     Inl e \<Rightarrow> Inl e
                   | Inr s \<Rightarrow> Inr (if isDecimal s then s else escapeQuotes s))))"

text \<open>A match consumes at least its four braces, so the scan below terminates.\<close>

lemma matchPlaceholder_shorter:
  assumes "matchPlaceholder s = Some (key, rest)"
  shows "length rest < length s"
proof -
  from assms obtain r1 where s: "s = CHR ''{'' # CHR ''{'' # r1"
    and r3: "dropWhile isSpace (dropWhile isWordChar (dropWhile isSpace r1))
             = CHR ''}'' # CHR ''}'' # rest"
    by (auto simp: matchPlaceholder_def Let_def split: list.splits if_splits)
  have "length (dropWhile isSpace (dropWhile isWordChar (dropWhile isSpace r1))) \<le> length r1"
    by (meson length_dropWhile_le order_trans)
  with r3 s show ?thesis by simp
qed

text \<open>\<^verbatim>\<open>substituteTemplate(template, vars)\<close>: the global replace scans from the left; where
  the pattern matches, the callback's text replaces the match and the scan goes on after
  it, elsewhere the character is copied. The first match whose key is missing from
  \<open>vars\<close>, or whose value cannot be converted to a string, throws.\<close>

function substituteTemplate :: "string \<Rightarrow> jsobject \<Rightarrow> jserror + string" where
  "substituteTemplate [] vars = Inr []"
| "substituteTemplate (c # cs) vars =
     (case matchPlaceholder (c # cs) of
        Some (key, rest) \<Rightarrow>
          (case vars key of
             None \<Rightarrow> Inl (MissingVariable key)
           | Some v \<Rightarrow>
               (case renderValue v of
                  Inl e \<Rightarrow> Inl e
                | Inr txt \<Rightarrow>
                    (case substituteTemplate rest vars of
                       Inl e \<Rightarrow> Inl e
                     | Inr out \<Rightarrow> Inr (txt @ out))))
      | None \<Rightarrow>
          (case substituteTemplate cs vars of
             Inl e \<Rightarrow> Inl e
           | Inr out \<Rightarrow> Inr (c # out)))"
  by pat_completeness auto
termination
  by (relation "measure (\<lambda>(s, vars). length s)")
     (auto dest: matchPlaceholder_shorter)

text \<open>The keys of the placeholders of a template, in the order in which the scan of
  \<^verbatim>\<open>substituteTemplate\<close> meets them.\<close>

function placeholders :: "string \<Rightarrow> string list" where
  "placeholders [] = []"
| "placeholders (c # cs) =
     (case matchPlaceholder (c # cs) of
        Some (key, rest) \<Rightarrow> key # placeholders rest
      | None \<Rightarrow> placeholders cs)"
  by pat_completeness auto
termination
  by (relation "measure length") (auto dest: matchPlaceholder_shorter)

text \<open>\<^verbatim>\<open>isReadOnly(sqlText)\<close>: no banned token occurs in the upper-cased text.\<close>

definition banned :: "string list" where
  "banned =
     [''INSERT '', ''UPDATE '', ''DELETE '', ''MERGE '', ''ALTER '', ''DROP '', ''CREATE '',
      ''TRUNCATE '', ''EXEC '', ''EXECUTE '', ''GRANT '', ''REVOKE '', ''USE '',
      ''BEGIN TRAN'', ''COMMIT'', ''ROLLBACK'', ''XP_'', ''SP_CONFIGURE'']"

definition isReadOnly :: "string \<Rightarrow> bool" where
  "isReadOnly sqlText = (let s = toUpperCase sqlText in \<not> list_ex (\<lambda>tok. includesStr s tok) banned)"

section \<open>The database and the responses\<close>

text \<open>A statement sent to the database: its text and the parameters bound with
  \<^verbatim>\<open>request.input(name, type, value)\<close>, in the order of the calls. Binding only records
  the parameter; what the driver does with it belongs to the database.\<close>

type_synonym row = "(string \<times> jsvalue) list"

record sqlParam =
  paramName :: string
  paramType :: mssqlType
  paramValue :: jsvalue

record dbcall =
  queryText :: string
  queryParams :: "sqlParam list"

text \<open>What the driver returns: the record sets of the batch. A database is a function
  from the statement to its result, or to the message of the error the driver throws.\<close>

record dbresult =
  recordsets :: "row list list"

type_synonym database = "dbcall \<Rightarrow> string + dbresult"

text \<open>\<^verbatim>\<open>r.recordset\<close> is the first record set, \<^verbatim>\<open>undefined\<close> when there is none.\<close>

definition recordset :: "dbresult \<Rightarrow> row list option" where
  "recordset r = (case recordsets r of [] \<Rightarrow> None | rs # _ \<Rightarrow> Some rs)"

datatype respBody =
    JsonError string
  | JsonRows "row list"
  | JsonRow row
  | NoBody

record response =
  status :: nat
  body :: respBody

text \<open>\<^verbatim>\<open>err.message\<close>. The text of a \<^verbatim>\<open>TypeError\<close> is the engine's own; the constant
  stands for it.\<close>

definition errorMessage :: "jserror \<Rightarrow> string" where
  "errorMessage e =
     (case e of
        MissingVariable key \<Rightarrow> ''Missing variable '' @ [CHR 0x27] @ key @ [CHR 0x27]
      | TypeError \<Rightarrow> ''TypeError''
      | RequestError msg \<Rightarrow> msg)"

text \<open>A handler returns the statements it sent to the database, in order, and its
  response.\<close>

type_synonym outcome = "dbcall list \<times> response"

text \<open>The handler that \<^verbatim>\<open>registerAdvancedRoute\<close> binds to \<^verbatim>\<open>POST /{endpoint}/a\<close>.
  \<open>decode\<close> is \<^verbatim>\<open>Buffer.from(b64, 'base64').toString('utf8')\<close>. Every exception ends in
  the handler's \<^verbatim>\<open>catch\<close>, which answers 500 with the message; \<^verbatim>\<open>parseInt\<close> first
  converts \<^verbatim>\<open>rowLimit\<close> to a string, which can throw, and \<^verbatim>\<open>Number.isFinite\<close> keeps a
  finite reading only.\<close>

definition advancedHandler :: "(string \<Rightarrow> string) \<Rightarrow> database \<Rightarrow> jsobject \<Rightarrow> outcome" where
  "advancedHandler decode db reqBody =
     (case getProp reqBody ''data'' of
        JStr b64 \<Rightarrow>
          if b64 = [] then
            ([], \<lparr>status = 400, body = JsonError ''Field 'data' (base64) is required''\<rparr>)
          else
            (let template = decode b64 in
             case substituteTemplate template reqBody of
               Inl e \<Rightarrow> ([], \<lparr>status = 500, body = JsonError (errorMessage e)\<rparr>)
             | Inr sqlText \<Rightarrow>
                 if \<not> isReadOnly sqlText then
                   ([], \<lparr>status = 400,
                         body = JsonError ''Only read-only queries are permitted in advanced mode''\<rparr>)
                 else
                   (case toStringJS (getProp reqBody ''rowLimit'') of
                      Inl e \<Rightarrow> ([], \<lparr>status = 500, body = JsonError (errorMessage e)\<rparr>)
                    | Inr limitText \<Rightarrow>
                        (let rowLimit = (case parseInt limitText of
                                           Finite n \<Rightarrow> n
                                         | _ \<Rightarrow> 1000);
                             call = \<lparr>queryText =
                                       ''SET ROWCOUNT '' @ numberToString rowLimit @ '';''
                                       @ [CHR 0x0A] @ sqlText,
                                     queryParams = []\<rparr>
                         in case db call of
                              Inl msg \<Rightarrow> ([call], \<lparr>status = 500, body = JsonError msg\<rparr>)
                            | Inr r \<Rightarrow>
                                ([call], \<lparr>status = 200,
                                          body = JsonRows (case recordset r of
                                                             None \<Rightarrow> []
                                                           | Some rs \<Rightarrow> rs)\<rparr>))))
      | _ \<Rightarrow> ([], \<lparr>status = 400, body = JsonError ''Field 'data' (base64) is required''\<rparr>))"

section \<open>Table and view routes\<close>

text \<open>The metadata that \<^verbatim>\<open>setupDynamicRoutes\<close> hands to \<^verbatim>\<open>registerRoutes\<close> (the connection
  pool is the \<open>database\<close> argument of the handlers). \<open>identity\<close> is \<open>None\<close> for
  \<^verbatim>\<open>null\<close>.\<close>

record tableMeta =
  schema :: string
  table :: string
  columns :: "column list"
  pk :: "string list"
  isView :: bool
  hasTriggers :: bool
  identity :: "string option"



definition qName :: "string \<Rightarrow> string \<Rightarrow> string" where
  "qName sch tbl = ''['' @ sch @ ''].['' @ tbl @ '']''"

text \<open>\<^verbatim>\<open>tableMeta.pk && tableMeta.pk[0]\<close> where it is used as a condition and as a name: the
  first primary-key column when there is one and its name is not empty.\<close>

definition firstPk :: "tableMeta \<Rightarrow> string option" where
  "firstPk m = (case pk m of [] \<Rightarrow> None | p # _ \<Rightarrow> if p = [] then None else Some p)"


text \<open>A registered route. \<^verbatim>\<open>app.get(base, h)\<close> with
  \<^verbatim>\<open>base = `/${endpoint}/${kind}/${table}`\<close> is recorded by its components, and
  \<^verbatim>\<open>`${base}/:${pk}`\<close> by the name of its path parameter; \<open>routePath\<close> is the path.\<close>

datatype httpMethod = GET | POST | PUT | DELETE

record route =
  routeMethod :: httpMethod
  routeEndpoint :: string
  routeKind :: string
  routeName :: "string option"
  routeParam :: "string option"

definition routePath :: "route \<Rightarrow> string" where
  "routePath r =
     ''/'' @ routeEndpoint r @ ''/'' @ routeKind r
     @ (case routeName r of None \<Rightarrow> [] | Some n \<Rightarrow> ''/'' @ n)
     @ (case routeParam r of None \<Rightarrow> [] | Some p \<Rightarrow> ''/:'' @ p)"

text \<open>\<^verbatim>\<open>registerRoutes(app, tableMeta, endpoint)\<close>: the routes it adds to \<^verbatim>\<open>app\<close>, in order.\<close>

definition registerRoutes :: "tableMeta \<Rightarrow> string \<Rightarrow> route list" where
  "registerRoutes m endpoint =
     (let kind = (if isView m then ''v'' else ''t'');
          base = \<lparr>routeMethod = GET, routeEndpoint = endpoint, routeKind = kind,
                  routeName = Some (table m), routeParam = None\<rparr>
      in base #
         (case firstPk m of
            Some p \<Rightarrow>
              if \<not> isView m then
                [base\<lparr>routeParam := Some p\<rparr>,
                 base\<lparr>routeMethod := POST\<rparr>,
                 base\<lparr>routeMethod := PUT, routeParam := Some p\<rparr>,
                 base\<lparr>routeMethod := DELETE, routeParam := Some p\<rparr>]
              else []
          | None \<Rightarrow> []))"

subsection \<open>The list handler\<close>

text \<open>\<^verbatim>\<open>s.split(d)\<close> for a one-character separator, and \<^verbatim>\<open>arr[i]\<close>.\<close>

fun splitOn :: "char \<Rightarrow> string \<Rightarrow> string list" where
  "splitOn d [] = [[]]"
| "splitOn d (c # cs) =
     (if c = d then [] # splitOn d cs
      else (case splitOn d cs of [] \<Rightarrow> [[c]] | p # ps \<Rightarrow> (c # p) # ps))"

definition nthOpt :: "'a list \<Rightarrow> nat \<Rightarrow> 'a option" where
  "nthOpt xs i = (if i < length xs then Some (xs ! i) else None)"

text \<open>The query string: a parameter that is absent is \<open>None\<close>; the values are strings.
  \<^verbatim>\<open>orderCol\<close> and \<^verbatim>\<open>orderDir\<close> as read from \<^verbatim>\<open>q.order\<close>.\<close>

type_synonym query = "string \<rightharpoonup> string"

definition parseOrder :: "query \<Rightarrow> string option \<times> string" where
  "parseOrder q =
     (case q ''order'' of
        None \<Rightarrow> (None, ''ASC'')
      | Some s \<Rightarrow>
          if s = [] then (None, ''ASC'')
          else (let parts = splitOn (CHR ''.'') s
                in (nthOpt parts 0,
                    case nthOpt parts 1 of
                      None \<Rightarrow> ''ASC''
                    | Some d \<Rightarrow> if d \<noteq> [] \<and> toUpperCase d = ''DESC'' then ''DESC'' else ''ASC'')))"

text \<open>\<^verbatim>\<open>pkColName || tableMeta.columns[0].COLUMN_NAME\<close>; reading the name of a first
  column that does not exist throws.\<close>

definition defaultOrderCol :: "tableMeta \<Rightarrow> jserror + string" where
  "defaultOrderCol m =
     (case firstPk m of
        Some p \<Rightarrow> Inr p
      | None \<Rightarrow> (case columns m of [] \<Rightarrow> Inl TypeError | c # _ \<Rightarrow> Inr (COLUMN_NAME c)))"

text \<open>The sort column and direction after the fallback.\<close>

definition chooseOrder :: "tableMeta \<Rightarrow> query \<Rightarrow> jserror + (string \<times> string)" where
  "chooseOrder m q =
     (let (orderCol, orderDir) = parseOrder q;
          columnNames = set (map COLUMN_NAME (columns m));
          known = (case orderCol of None \<Rightarrow> False | Some c \<Rightarrow> c \<noteq> [] \<and> c \<in> columnNames)
      in if \<not> known then
           (case defaultOrderCol m of Inl e \<Rightarrow> Inl e | Inr c \<Rightarrow> Inr (c, ''ASC''))
         else (case orderCol of None \<Rightarrow> Inl TypeError | Some c \<Rightarrow> Inr (c, orderDir)))"

text \<open>\<^verbatim>\<open>limit\<close> and \<^verbatim>\<open>offset\<close>: \<^verbatim>\<open>Number.isFinite(parseInt(v, 10)) ? parseInt(v, 10) : d\<close>,
  where a missing parameter reads as the string \<open>undefined\<close>, which has no digit. The
  result is the integer value of a finite double.\<close>

definition parseLimit :: "query \<Rightarrow> int" where
  "parseLimit q =
     (case q ''limit'' of
        None \<Rightarrow> - 1
      | Some s \<Rightarrow> (case parseInt s of Finite n \<Rightarrow> n | _ \<Rightarrow> - 1))"

definition parseOffset :: "query \<Rightarrow> int" where
  "parseOffset q =
     (let offset = (case q ''offset'' of
                      None \<Rightarrow> 0
                    | Some s \<Rightarrow> (case parseInt s of Finite n \<Rightarrow> n | _ \<Rightarrow> 0))
      in if offset < 0 then 0 else offset)"

text \<open>The column filters of a list request: the columns that the query string names, the
  parameters bound for them and \<^verbatim>\<open>whereSql\<close>.\<close>

definition listFilters :: "tableMeta \<Rightarrow> query \<Rightarrow> column list" where
  "listFilters m q = filter (\<lambda>col. q (COLUMN_NAME col) \<noteq> None) (columns m)"

definition filterInput :: "query \<Rightarrow> column \<Rightarrow> sqlParam" where
  "filterInput q col =
     \<lparr>paramName = COLUMN_NAME col, paramType = mapSqlTypeToMssqlType col,
      paramValue = (case q (COLUMN_NAME col) of None \<Rightarrow> JUndefined | Some v \<Rightarrow> JStr v)\<rparr>"

definition whereSql :: "tableMeta \<Rightarrow> query \<Rightarrow> string" where
  "whereSql m q =
     (let whereList = map (\<lambda>col. ''['' @ COLUMN_NAME col @ ''] = @'' @ COLUMN_NAME col)
                        (listFilters m q)
      in if whereList \<noteq> [] then ''WHERE '' @ joinStr '' AND '' whereList else [])"

text \<open>The statement of the list handler: its text and bound parameters, or the exception
  thrown while building it.\<close>

definition listQuery :: "tableMeta \<Rightarrow> query \<Rightarrow> jserror + dbcall" where
  "listQuery m q =
     (let inputs = map (filterInput q) (listFilters m q)
      in case chooseOrder m q of
           Inl e \<Rightarrow> Inl e
         | Inr (orderCol, orderDir) \<Rightarrow>
             (let limit = parseLimit q;
                  offset = parseOffset q;
                  orderSql = ''ORDER BY ['' @ orderCol @ ''] '' @ orderDir;
                  offsetInput = \<lparr>paramName = ''offset'', paramType = SqlInt,
                                 paramValue = JNum (numberToString offset)\<rparr>;
                  limitInput = \<lparr>paramName = ''limit'', paramType = SqlInt,
                                paramValue = JNum (numberToString limit)\<rparr>
              in if limit < 0 \<and> offset = 0 then
                   Inr \<lparr>queryText = ''SELECT * FROM '' @ qName (schema m) (table m) @ '' ''
                                     @ whereSql m q @ '' '' @ orderSql,
                        queryParams = inputs\<rparr>
                 else if limit < 0 \<and> offset \<ge> 0 then
                   Inr \<lparr>queryText = ''SELECT * FROM '' @ qName (schema m) (table m) @ '' ''
                                     @ whereSql m q @ '' '' @ orderSql @ '' OFFSET @offset ROWS'',
                        queryParams = inputs @ [offsetInput]\<rparr>
                 else
                   Inr \<lparr>queryText = ''SELECT * FROM '' @ qName (schema m) (table m) @ '' ''
                                     @ whereSql m q @ '' '' @ orderSql
                                     @ '' OFFSET @offset ROWS FETCH NEXT @limit ROWS ONLY'',
                        queryParams = inputs @ [offsetInput, limitInput]\<rparr>))"

definition listHandler :: "tableMeta \<Rightarrow> database \<Rightarrow> query \<Rightarrow> outcome" where
  "listHandler m db q =
     (case listQuery m q of
        Inl e \<Rightarrow> ([], \<lparr>status = 500, body = JsonError (errorMessage e)\<rparr>)
      | Inr call \<Rightarrow>
          (case db call of
             Inl msg \<Rightarrow> ([call], \<lparr>status = 500, body = JsonError msg\<rparr>)
           | Inr r \<Rightarrow>
               ([call], \<lparr>status = 200,
                         body = (case recordset r of None \<Rightarrow> NoBody | Some rs \<Rightarrow> JsonRows rs)\<rparr>)))"

subsection \<open>The create handler\<close>











subsection \<open>The update handler\<close>




subsection \<open>An example table\<close>

text \<open>A table with a trigger, a primary key and no identity column, on which the
  theorems below are instantiated.\<close>

definition exampleTable :: tableMeta where
  "exampleTable =
     \<lparr>schema = ''dbo'', table = ''Widgets'',
      columns = [\<lparr>COLUMN_NAME = ''id'', DATA_TYPE = ''int'', IS_NULLABLE = ''NO'',
                  CHARACTER_MAXIMUM_LENGTH = None\<rparr>,
                 \<lparr>COLUMN_NAME = ''name'', DATA_TYPE = ''nvarchar'', IS_NULLABLE = ''YES'',
                  CHARACTER_MAXIMUM_LENGTH = Some 50\<rparr>],
      pk = [''id''], isView = False, hasTriggers = True, identity = None\<rparr>"

section \<open>Discovery: routes and schema fragments\<close>

text \<open>A row of \<^verbatim>\<open>getProcedureParams\<close> or \<^verbatim>\<open>getFunctionParams\<close> (the latter selects no
  \<open>IS_OUTPUT\<close>, which then reads as false).\<close>

record parameter =
  PARAM_NAME :: string
  TYPE_NAME :: string
  MAX_LENGTH :: int
  PRECISION :: int
  SCALE :: int
  IS_OUTPUT :: bool

record procMeta =
  procSchema :: string
  proc :: string
  procParams :: "parameter list"

record funcMeta =
  funcSchema :: string
  func :: string
  funcType :: string
  funcParams :: "parameter list"
  returnType :: "parameter option"

text \<open>An entry of \<^verbatim>\<open>openApiSchemas\<close>: the properties in insertion order, the required
  names and the \<^verbatim>\<open>x-msabon-*\<close> fields (\<open>None\<close> where the entry has no such field). The
  description, \<^verbatim>\<open>additionalProperties\<close> and example texts of the advanced entry are
  left out.\<close>

record schemaFragment =
  properties :: "(string \<times> openApiType) list"
  required :: "string list"
  xKind :: string
  xIsView :: "bool option"
  xHasPk :: "bool option"
  xProcName :: "string option"
  xProcSchema :: "string option"
  xFType :: "string option"
  xFReturn :: "openApiType option"

text \<open>\<^verbatim>\<open>props[name] = type\<close> for each element in turn: a repeated name keeps its place and
  takes the later type.\<close>

definition columnProps :: "column list \<Rightarrow> (string \<times> openApiType) list" where
  "columnProps cs = fold (\<lambda>c props. AList.update (COLUMN_NAME c) (toOpenApiType c) props) cs []"

definition paramProps :: "parameter list \<Rightarrow> (string \<times> openApiType) list" where
  "paramProps ps =
     fold (\<lambda>p props. AList.update (PARAM_NAME p) (toOpenApiTypeFromSqlName (TYPE_NAME p)) props) ps []"

definition tableFragment :: "tableMeta \<Rightarrow> schemaFragment" where
  "tableFragment t =
     \<lparr>properties = columnProps (columns t),
      required = map COLUMN_NAME (filter (\<lambda>c. IS_NULLABLE c = ''NO'') (columns t)),
      xKind = ''t'', xIsView = Some False, xHasPk = Some (pk t \<noteq> []),
      xProcName = None, xProcSchema = None, xFType = None, xFReturn = None\<rparr>"

definition viewFragment :: "tableMeta \<Rightarrow> schemaFragment" where
  "viewFragment v =
     \<lparr>properties = columnProps (columns v),
      required = map COLUMN_NAME (filter (\<lambda>c. IS_NULLABLE c = ''NO'') (columns v)),
      xKind = ''v'', xIsView = Some True, xHasPk = Some False,
      xProcName = None, xProcSchema = None, xFType = None, xFReturn = None\<rparr>"

definition procFragment :: "procMeta \<Rightarrow> schemaFragment" where
  "procFragment p =
     \<lparr>properties = paramProps (procParams p),
      required = map PARAM_NAME (filter (\<lambda>prm. \<not> IS_OUTPUT prm) (procParams p)),
      xKind = ''p'', xIsView = None, xHasPk = None,
      xProcName = Some (proc p), xProcSchema = Some (procSchema p),
      xFType = None, xFReturn = None\<rparr>"

definition funcFragment :: "funcMeta \<Rightarrow> schemaFragment" where
  "funcFragment f =
     \<lparr>properties = paramProps (funcParams f),
      required = map PARAM_NAME (funcParams f),
      xKind = ''f'', xIsView = None, xHasPk = None, xProcName = None, xProcSchema = None,
      xFType = Some (funcType f),
      xFReturn = (case returnType f of
                    None \<Rightarrow> None
                  | Some ret \<Rightarrow> if funcType f = ''FN''
                                then Some (toOpenApiTypeFromSqlName (TYPE_NAME ret)) else None)\<rparr>"

definition advancedFragment :: schemaFragment where
  "advancedFragment =
     \<lparr>properties = [(''data'', \<lparr>oaType = ''string'', oaFormat = Some ''byte''\<rparr>)],
      required = [''data''],
      xKind = ''a'', xIsView = None, xHasPk = None, xProcName = None, xProcSchema = None,
      xFType = None, xFReturn = None\<rparr>"

text \<open>The routes of \<^verbatim>\<open>registerProcRoutes\<close>, \<^verbatim>\<open>registerFunctionRoutes\<close> and
  \<^verbatim>\<open>registerAdvancedRoute\<close>: one \<^verbatim>\<open>POST\<close> each.\<close>

definition registerProcRoutes :: "procMeta \<Rightarrow> string \<Rightarrow> route list" where
  "registerProcRoutes p endpoint =
     [\<lparr>routeMethod = POST, routeEndpoint = endpoint, routeKind = ''p'',
       routeName = Some (proc p), routeParam = None\<rparr>]"

definition registerFunctionRoutes :: "funcMeta \<Rightarrow> string \<Rightarrow> route list" where
  "registerFunctionRoutes f endpoint =
     [\<lparr>routeMethod = POST, routeEndpoint = endpoint, routeKind = ''f'',
       routeName = Some (func f), routeParam = None\<rparr>]"

definition registerAdvancedRoute :: "string \<Rightarrow> route list" where
  "registerAdvancedRoute endpoint =
     [\<lparr>routeMethod = POST, routeEndpoint = endpoint, routeKind = ''a'',
       routeName = None, routeParam = None\<rparr>]"

text \<open>The state that \<^verbatim>\<open>setupDynamicRoutes\<close> builds: the routes added to \<^verbatim>\<open>app\<close> and the
  object \<^verbatim>\<open>openApiSchemas\<close>. Each loop body registers the routes of one object and
  assigns its entry under the key \<^verbatim>\<open>`${endpoint}_${name}`\<close>.\<close>

type_synonym schemas = "string \<rightharpoonup> schemaFragment"

definition tableStep :: "string \<Rightarrow> tableMeta \<Rightarrow> route list \<times> schemas \<Rightarrow> route list \<times> schemas" where
  "tableStep endpoint t st =
     (fst st @ registerRoutes (t\<lparr>isView := False\<rparr>) endpoint,
      (snd st)(endpoint @ ''_'' @ table t \<mapsto> tableFragment t))"

definition viewStep :: "string \<Rightarrow> tableMeta \<Rightarrow> route list \<times> schemas \<Rightarrow> route list \<times> schemas" where
  "viewStep endpoint v st =
     (fst st @ registerRoutes
                (v\<lparr>pk := [], isView := True, hasTriggers := False, identity := None\<rparr>) endpoint,
      (snd st)(endpoint @ ''_'' @ table v \<mapsto> viewFragment v))"

definition procStep :: "string \<Rightarrow> procMeta \<Rightarrow> route list \<times> schemas \<Rightarrow> route list \<times> schemas" where
  "procStep endpoint p st =
     (fst st @ registerProcRoutes p endpoint,
      (snd st)(endpoint @ ''_'' @ proc p \<mapsto> procFragment p))"

definition funcStep :: "string \<Rightarrow> funcMeta \<Rightarrow> route list \<times> schemas \<Rightarrow> route list \<times> schemas" where
  "funcStep endpoint f st =
     (fst st @ registerFunctionRoutes f endpoint,
      (snd st)(endpoint @ ''_'' @ func f \<mapsto> funcFragment f))"

definition advancedStep :: "string \<Rightarrow> route list \<times> schemas \<Rightarrow> route list \<times> schemas" where
  "advancedStep endpoint st =
     (fst st @ registerAdvancedRoute endpoint,
      (snd st)(endpoint @ ''_advanced'' \<mapsto> advancedFragment))"

text \<open>What discovery found for an endpoint: the answers of the catalogue queries, in the
  order of the record sets. For a view only the schema, the name and the columns are
  read.\<close>

record discovered =
  tables :: "tableMeta list"
  views :: "tableMeta list"
  procs :: "procMeta list"
  funcs :: "funcMeta list"

text \<open>\<^verbatim>\<open>setupDynamicRoutes(app, pool, endpointConfig)\<close> on an empty \<^verbatim>\<open>app\<close>: the routes
  registered and the schema object returned. \<open>cfgEndpoint\<close> is
  \<^verbatim>\<open>endpointConfig.endpoint\<close> (\<open>None\<close> when it is not set), \<open>cfgAdvanced\<close> is
  \<^verbatim>\<open>endpointConfig.advanced === true\<close>.\<close>

record endpointConfig =
  cfgEndpoint :: "string option"
  cfgAdvanced :: bool

definition endpointName :: "endpointConfig \<Rightarrow> string" where
  "endpointName cfg =
     (case cfgEndpoint cfg of None \<Rightarrow> ''api'' | Some e \<Rightarrow> if e = [] then ''api'' else e)"

definition setupDynamicRoutes :: "endpointConfig \<Rightarrow> discovered \<Rightarrow> route list \<times> schemas" where
  "setupDynamicRoutes cfg found =
     (let endpoint = endpointName cfg;
          st0 = ([], Map.empty);
          st1 = fold (tableStep endpoint) (tables found) st0;
          st2 = fold (viewStep endpoint) (views found) st1;
          st3 = fold (procStep endpoint) (procs found) st2;
          st4 = fold (funcStep endpoint) (funcs found) st3
      in if cfgAdvanced cfg then advancedStep endpoint st4 else st4)"

text \<open>The correspondence of the invariant. The triple of a route is its endpoint, kind
  and name; the entry that corresponds to it has the key \<^verbatim>\<open>`${endpoint}_${name}`\<close>
  (\<^verbatim>\<open>`${endpoint}_advanced`\<close> for the advanced route) and the route's kind as its
  \<^verbatim>\<open>x-msabon-kind\<close>.\<close>

definition routeObjectName :: "route \<Rightarrow> string" where
  "routeObjectName r = (case routeName r of None \<Rightarrow> ''advanced'' | Some n \<Rightarrow> n)"

definition fragmentKey :: "route \<Rightarrow> string" where
  "fragmentKey r = routeEndpoint r @ ''_'' @ routeObjectName r"

definition routeTriple :: "route \<Rightarrow> string \<times> string \<times> string option" where
  "routeTriple r = (routeEndpoint r, routeKind r, routeName r)"

definition corresponds :: "route \<Rightarrow> string \<Rightarrow> schemaFragment \<Rightarrow> bool" where
  "corresponds r key frag = (key = fragmentKey r \<and> xKind frag = routeKind r)"

definition routesMatchSchemas :: "route list \<Rightarrow> schemas \<Rightarrow> bool" where
  "routesMatchSchemas routes sch =
     ((\<forall>r\<in>set routes. \<exists>!key. \<exists>frag. sch key = Some frag \<and> corresponds r key frag)
      \<and> (\<forall>key frag. sch key = Some frag \<longrightarrow>
            (\<exists>!t. \<exists>r\<in>set routes. t = routeTriple r \<and> corresponds r key frag)))"

text \<open>The discovered objects of an endpoint as pairs of kind and name, the advanced
  capability counting as an object named \<open>advanced\<close>.\<close>

definition discoveredObjects :: "endpointConfig \<Rightarrow> discovered \<Rightarrow> (string \<times> string) list" where
  "discoveredObjects cfg found =
     map (\<lambda>t. (''t'', table t)) (tables found)
     @ map (\<lambda>v. (''v'', table v)) (views found)
     @ map (\<lambda>p. (''p'', proc p)) (procs found)
     @ map (\<lambda>f. (''f'', func f)) (funcs found)
     @ (if cfgAdvanced cfg then [(''a'', ''advanced'')] else [])"

text \<open>A view with the name of the example table, in another schema.\<close>

definition exampleView :: tableMeta where
  "exampleView =
     \<lparr>schema = ''report'', table = ''Widgets'',
      columns = [\<lparr>COLUMN_NAME = ''name'', DATA_TYPE = ''nvarchar'', IS_NULLABLE = ''YES'',
                  CHARACTER_MAXIMUM_LENGTH = Some 50\<rparr>],
      pk = [], isView = True, hasTriggers = False, identity = None\<rparr>"

section \<open>Properties of the type mapper\<close>

lemma toLowerCase_bigint: "toLowerCase ''bigint'' = ''bigint''"
  by code_simp

lemma bigint_includes_int: "includesStr ''bigint'' ''int''"
  by code_simp

lemma bigint_not_char: "\<not> includesStr ''bigint'' ''char''"
  by code_simp

text \<open>
  Claim C1. A catalog type named exactly \<open>bigint\<close> should be classified as bigint before the
  generic test for a name containing \<open>int\<close>, in all three mapping functions. Only the
  parameter mapper does so: in the column bind-type mapper and in the column schema-type
  mapper the test for a name containing \<open>int\<close> comes first, so a \<open>bigint\<close> column is bound
  as the 32-bit integer type and described as a plain integer with no \<open>int64\<close> format.
\<close>

theorem bigint_column_classified_as_int:
  "mapSqlTypeToMssqlType
     \<lparr>COLUMN_NAME = ''id'', DATA_TYPE = ''bigint'', IS_NULLABLE = ''NO'',
      CHARACTER_MAXIMUM_LENGTH = None\<rparr> = SqlInt
   \<and> toOpenApiType
     \<lparr>COLUMN_NAME = ''id'', DATA_TYPE = ''bigint'', IS_NULLABLE = ''NO'',
      CHARACTER_MAXIMUM_LENGTH = None\<rparr> = \<lparr>oaType = ''integer'', oaFormat = None\<rparr>
   \<and> mapTypeNameToMssql ''bigint'' 8 19 0 = SqlBigInt"
  by (simp add: mapSqlTypeToMssqlType_def toOpenApiType_def mapTypeNameToMssql_def
      toLowerCase_bigint bigint_includes_int bigint_not_char)

section \<open>Properties of template substitution\<close>

lemma notspace_D: "\<not> isSpace (CHR ''D'')" by (simp add: isSpace_def)
lemma notspace_T: "\<not> isSpace (CHR ''T'')" by (simp add: isSpace_def)
lemma notword_sp: "\<not> isWordChar (CHR '' '')" by (simp add: isWordChar_def)

lemma matchPlaceholder_not_brace: "c \<noteq> CHR ''{'' \<Longrightarrow> matchPlaceholder (c # cs) = None"
  by (cases cs) (auto simp: matchPlaceholder_def)

lemma substituteTemplate_copy:
  "c \<noteq> CHR ''{'' \<Longrightarrow> substituteTemplate (c # cs) vars =
     (case substituteTemplate cs vars of Inl e \<Rightarrow> Inl e | Inr out \<Rightarrow> Inr (c # out))"
  by (simp add: matchPlaceholder_not_brace)

lemma matchPlaceholder_shape:
  assumes "matchPlaceholder s = Some (key, rest)"
  shows "\<exists>w1 w2. s = ''{{'' @ w1 @ key @ w2 @ ''}}'' @ rest \<and> list_all isSpace w1
           \<and> list_all isSpace w2 \<and> list_all isWordChar key \<and> key \<noteq> []"
proof -
  from assms obtain r1 where s: "s = CHR ''{'' # CHR ''{'' # r1"
    and key: "key = takeWhile isWordChar (dropWhile isSpace r1)" and ne: "key \<noteq> []"
    and r3: "dropWhile isSpace (dropWhile isWordChar (dropWhile isSpace r1))
             = CHR ''}'' # CHR ''}'' # rest"
    by (auto simp: matchPlaceholder_def Let_def split: list.splits if_splits)
  define w1 where "w1 = takeWhile isSpace r1"
  define r2 where "r2 = dropWhile isSpace r1"
  define w2 where "w2 = takeWhile isSpace (dropWhile isWordChar r2)"
  have "r1 = w1 @ r2" by (simp add: w1_def r2_def)
  moreover have "r2 = key @ dropWhile isWordChar r2" by (simp add: key r2_def)
  moreover have "dropWhile isWordChar r2 = w2 @ CHR ''}'' # CHR ''}'' # rest"
    using r3 unfolding w2_def r2_def by (metis takeWhile_dropWhile_id)
  moreover have "list_all isSpace w1" "list_all isSpace w2" "list_all isWordChar key"
    by (auto simp: w1_def w2_def key list_all_iff dest: set_takeWhileD)
  ultimately show ?thesis using s ne by (intro exI[of _ w1] exI[of _ w2]) simp
qed




lemma substituteTemplate_prefix:
  assumes "CHR ''{'' \<notin> set pre"
  shows "substituteTemplate (pre @ t) vars =
     (case substituteTemplate t vars of Inl e \<Rightarrow> Inl e | Inr out \<Rightarrow> Inr (pre @ out))"
  using assms
proof (induction pre)
  case Nil
  then show ?case by (simp split: sum.splits)
next
  case (Cons c pre)
  then have "c \<noteq> CHR ''{''" by auto
  then show ?case using Cons
    by (simp add: matchPlaceholder_not_brace split: sum.splits)
qed

lemma renderValue_cases:
  "renderValue v =
     (if v = JNull \<or> v = JUndefined then Inr ''NULL''
      else (case toStringJS v of
              Inl e \<Rightarrow> Inl e
            | Inr s \<Rightarrow> Inr (if (\<exists>t. v = JNum t) \<or> isDecimal s then s else escapeQuotes s)))"
  by (cases v) (simp_all add: renderValue_def split: sum.splits)

lemma renderValue_error: "renderValue v = Inl e \<Longrightarrow> e = TypeError"
proof -
  have a: "allOrError rs = Inl e \<Longrightarrow> Inl e \<in> set rs" for rs :: "(jserror + string) list"
    by (induction rs rule: allOrError.induct) (auto split: sum.splits)
  have "toStringJS v = Inl e \<Longrightarrow> e = TypeError" for v
  proof (induction v rule: toStringJS.induct)
    case (6 xs)
    define f where "f = (\<lambda>x. if x = JUndefined \<or> x = JNull then Inr [] else toStringJS x)"
    from 6(2) have "allOrError (map f xs) = Inl e"
      unfolding f_def by (simp split: sum.splits)
    then have "Inl e \<in> set (map f xs)" by (rule a)
    then obtain x where x: "x \<in> set xs" "f x = Inl e" by auto
    then have "x \<noteq> JUndefined \<and> x \<noteq> JNull" "toStringJS x = Inl e"
      unfolding f_def by (auto split: if_splits)
    with 6(1) x(1) show ?case by blast
  qed (auto split: if_splits)
  then show "renderValue v = Inl e \<Longrightarrow> e = TypeError"
    by (auto simp: renderValue_cases split: if_splits sum.splits)
qed

text \<open>Substitution succeeds exactly when the body has, for every placeholder of the
  template, a value that can be rendered.\<close>

lemma substituteTemplate_succeeds:
  "\<forall>k\<in>set (placeholders t). \<exists>v txt. vars k = Some v \<and> renderValue v = Inr txt
   \<Longrightarrow> \<exists>out. substituteTemplate t vars = Inr out"
proof (induction t vars rule: substituteTemplate.induct)
  case (1 vars)
  then show ?case by simp
next
  case (2 c cs vars)
  show ?case
  proof (cases "matchPlaceholder (c # cs)")
    case None
    with 2 show ?thesis by (auto split: sum.splits)
  next
    case (Some kr)
    obtain key rest where kr: "kr = (key, rest)" by (cases kr)
    from 2(3) Some kr obtain v y where v: "vars key = Some v" and t: "renderValue v = Inr y"
      by auto
    from 2(3) Some kr
    have "\<forall>k\<in>set (placeholders rest). \<exists>v txt. vars k = Some v \<and> renderValue v = Inr txt"
      by auto
    from 2(2)[OF Some kr[symmetric] v t this]
    show ?thesis using Some kr v t by auto
  qed
qed

lemma substituteTemplate_fails:
  "\<exists>k\<in>set (placeholders t). vars k = None \<Longrightarrow> \<exists>e. substituteTemplate t vars = Inl e"
proof (induction t vars rule: substituteTemplate.induct)
  case (1 vars)
  then show ?case by simp
next
  case (2 c cs vars)
  show ?case
  proof (cases "matchPlaceholder (c # cs)")
    case None
    with 2 show ?thesis by (auto split: sum.splits)
  next
    case (Some kr)
    note m = this
    obtain key rest where kr: "kr = (key, rest)" by (cases kr)
    show ?thesis
    proof (cases "vars key")
      case None
      with m kr show ?thesis by simp
    next
      case (Some v)
      note v = this
      show ?thesis
      proof (cases "renderValue v")
        case (Inl e)
        with m kr v show ?thesis by simp
      next
        case (Inr y)
        from 2(3) m kr v have "\<exists>k\<in>set (placeholders rest). vars k = None" by auto
        from 2(2)[OF m kr[symmetric] v Inr this]
        show ?thesis using m kr v Inr by auto
      qed
    qed
  qed
qed

subsection \<open>A banned statement survives substitution\<close>

lemma prefix_step:
  assumes "\<not> isSpace q" "q \<noteq> CHR ''}''"
    and "\<And>k. list_all isWordChar k \<Longrightarrow> \<not> prefix Q (k @ w @ CHR ''}'' # r)"
    and "list_all isWordChar k" "list_all isSpace w"
  shows "\<not> prefix (q # Q) (k @ w @ CHR ''}'' # r)"
proof (cases k)
  case Nil
  then show ?thesis using assms(1,2,5) by (cases w) auto
next
  case (Cons c k')
  then show ?thesis using assms(3)[of k'] assms(4) by auto
qed

lemma no_word_after_space:
  assumes "list_all isWordChar k" "list_all isSpace w"
  shows "\<not> prefix (CHR '' '' # CHR ''T'' # p) (k @ w @ CHR ''}'' # r)"
proof (cases k)
  case Nil
  show ?thesis
  proof (cases w)
    case Nil
    with \<open>k = []\<close> show ?thesis by simp
  next
    case (Cons c w')
    then have "list_all isSpace w'" using assms(2) by simp
    then have "\<not> prefix (CHR ''T'' # p) (w' @ CHR ''}'' # r)"
      by (cases w') (auto simp: notspace_T)
    with Cons \<open>k = []\<close> show ?thesis by simp
  qed
next
  case (Cons c k')
  then show ?thesis using assms(1) by (auto simp: notword_sp)
qed

lemma no_drop_table_in_key:
  assumes "list_all isWordChar k" "list_all isSpace w"
  shows "\<not> prefix ''DROP TABLE t'' (k @ w @ CHR ''}'' # r)"
proof -
  have ns: "\<not> isSpace (CHR ''D'')" "\<not> isSpace (CHR ''R'')" "\<not> isSpace (CHR ''O'')"
    "\<not> isSpace (CHR ''P'')"
    by (simp_all add: isSpace_def)
  have 4: "\<And>k. list_all isWordChar k \<Longrightarrow> \<not> prefix '' TABLE t'' (k @ w @ CHR ''}'' # r)"
    using no_word_after_space[OF _ assms(2)] by simp
  have 3: "\<And>k. list_all isWordChar k \<Longrightarrow> \<not> prefix ''P TABLE t'' (k @ w @ CHR ''}'' # r)"
    using prefix_step[OF ns(4) _ 4 _ assms(2)] by simp
  have 2: "\<And>k. list_all isWordChar k \<Longrightarrow> \<not> prefix ''OP TABLE t'' (k @ w @ CHR ''}'' # r)"
    using prefix_step[OF ns(3) _ 3 _ assms(2)] by simp
  have 1: "\<And>k. list_all isWordChar k \<Longrightarrow> \<not> prefix ''ROP TABLE t'' (k @ w @ CHR ''}'' # r)"
    using prefix_step[OF ns(2) _ 2 _ assms(2)] by simp
  show ?thesis
    using prefix_step[OF ns(1) _ 1 assms(1) assms(2)] by simp
qed

lemma sublist_skip_word:
  assumes "list_all isSpace w"
  shows "list_all isWordChar k \<Longrightarrow> sublist ''DROP TABLE t'' (k @ w @ CHR ''}'' # r)
     \<Longrightarrow> sublist ''DROP TABLE t'' (w @ CHR ''}'' # r)"
proof (induction k)
  case Nil
  then show ?case by simp
next
  case (Cons c k)
  have "\<not> prefix ''DROP TABLE t'' (c # k @ w @ CHR ''}'' # r)"
    using no_drop_table_in_key[OF Cons.prems(1) assms, of r] unfolding append_Cons .
  moreover have "sublist ''DROP TABLE t'' (c # k @ w @ CHR ''}'' # r)"
    using Cons.prems(2) unfolding append_Cons .
  ultimately have "sublist ''DROP TABLE t'' (k @ w @ CHR ''}'' # r)"
    using sublist_Cons_right[of "''DROP TABLE t''" c "k @ w @ CHR ''}'' # r"] by blast
  with Cons show ?case by simp
qed

lemma sublist_skip_space:
  "list_all isSpace w \<Longrightarrow> sublist ''DROP TABLE t'' (w @ r) \<Longrightarrow> sublist ''DROP TABLE t'' r"
proof (induction w)
  case Nil
  then show ?case by simp
next
  case (Cons c w)
  then have "c \<noteq> CHR ''D''" using notspace_D by auto
  with Cons show ?case by (simp add: sublist_Cons_right)
qed

lemma sublist_skip_char:
  "c \<noteq> CHR ''D'' \<Longrightarrow> sublist ''DROP TABLE t'' (c # r) \<Longrightarrow> sublist ''DROP TABLE t'' r"
  by (simp add: sublist_Cons_right)

lemma sublist_after_match:
  assumes "matchPlaceholder s = Some (key, rest)" and "sublist ''DROP TABLE t'' s"
  shows "sublist ''DROP TABLE t'' rest"
proof -
  from matchPlaceholder_shape[OF assms(1)] obtain w1 w2 where
    s: "s = ''{{'' @ w1 @ key @ w2 @ ''}}'' @ rest" and w1: "list_all isSpace w1"
    and w2: "list_all isSpace w2" and key: "list_all isWordChar key"
    by blast
  from assms(2) s have "sublist ''DROP TABLE t'' (w1 @ key @ w2 @ CHR ''}'' # CHR ''}'' # rest)"
    by (simp add: sublist_Cons_right)
  then have "sublist ''DROP TABLE t'' (key @ w2 @ CHR ''}'' # CHR ''}'' # rest)"
    using sublist_skip_space[OF w1] by blast
  then have "sublist ''DROP TABLE t'' (w2 @ CHR ''}'' # CHR ''}'' # rest)"
    using sublist_skip_word[OF w2 key] by blast
  then have "sublist ''DROP TABLE t'' (CHR ''}'' # CHR ''}'' # rest)"
    using sublist_skip_space[OF w2] by blast
  then show ?thesis
    by (simp add: sublist_Cons_right)
qed

lemma sublist_append_left: "sublist P ys \<Longrightarrow> sublist P (xs @ ys)"
  unfolding sublist_def by (metis append_assoc)

lemma substituteTemplate_keeps_sublist:
  assumes nb: "CHR ''{'' \<notin> set P"
    and am: "\<And>s key rest. matchPlaceholder s = Some (key, rest) \<Longrightarrow> sublist P s \<Longrightarrow> sublist P rest"
  shows "sublist P t \<Longrightarrow> substituteTemplate t vars = Inr out \<Longrightarrow> sublist P out"
proof (induction t vars arbitrary: out rule: substituteTemplate.induct)
  case (1 vars)
  then show ?case by simp
next
  case (2 c cs vars)
  show ?case
  proof (cases "prefix P (c # cs)")
    case True
    then obtain zs where zs: "c # cs = P @ zs" by (auto simp: prefix_def)
    from substituteTemplate_prefix[OF nb, of zs vars] 2(4) zs
    obtain out' where "out = P @ out'"
      by (auto split: sum.splits)
    then show ?thesis by simp
  next
    case False
    with 2(3) have sub: "sublist P cs" by (simp add: sublist_Cons_right)
    show ?thesis
    proof (cases "matchPlaceholder (c # cs)")
      case None
      with 2(4) obtain out' where o: "substituteTemplate cs vars = Inr out'" "out = c # out'"
        by (auto split: sum.splits)
      from 2(1)[OF None sub o(1)] have "sublist P ([c] @ out')"
        by (rule sublist_append_left)
      with o(2) show ?thesis by simp
    next
      case (Some kr)
      obtain key rest where kr: "kr = (key, rest)" by (cases kr)
      from 2(4) Some kr obtain v y out' where v: "vars key = Some v"
        and t: "renderValue v = Inr y"
        and o: "substituteTemplate rest vars = Inr out'" "out = y @ out'"
        by (auto split: option.splits sum.splits)
      have "sublist P rest"
        using am[of "c # cs" key rest] Some kr 2(3) by simp
      from 2(2)[OF Some kr[symmetric] v t this o(1)] o(2) show ?thesis
        by (simp add: sublist_append_left)
    qed
  qed
qed

lemma substituteTemplate_keeps_drop_table:
  assumes "sublist ''DROP TABLE t'' t" and "substituteTemplate t vars = Inr out"
  shows "sublist ''DROP TABLE t'' out"
proof (rule substituteTemplate_keeps_sublist[OF _ _ assms])
  show "CHR ''{'' \<notin> set ''DROP TABLE t''" by simp
next
  fix s key rest
  assume "matchPlaceholder s = Some (key, rest)" "sublist ''DROP TABLE t'' s"
  then show "sublist ''DROP TABLE t'' rest" by (rule sublist_after_match)
qed

lemma toUpperCase_append: "toUpperCase (a @ b) = toUpperCase a @ toUpperCase b"
  by (simp add: toUpperCase_def)

lemma drop_table_not_read_only:
  assumes "sublist ''DROP TABLE t'' s"
  shows "\<not> isReadOnly s"
proof -
  define P where "P = ''DROP TABLE t''"
  from assms obtain a b where "s = a @ P @ b" by (auto simp: sublist_def P_def)
  moreover have "toUpperCase P = ''DROP '' @ ''TABLE T''" unfolding P_def by code_simp
  ultimately have "toUpperCase s = toUpperCase a @ ''DROP '' @ (''TABLE T'' @ toUpperCase b)"
    by (simp only: toUpperCase_append append_assoc)
  then have "includesStr (toUpperCase s) ''DROP ''"
    unfolding includesStr_def sublist_def by blast
  moreover have "''DROP '' \<in> set banned" by (simp add: banned_def)
  ultimately show ?thesis
    unfolding isReadOnly_def Let_def list_ex_iff by blast
qed

subsection \<open>Substitution of values\<close>




section \<open>Properties of the advanced handler\<close>

lemma advancedHandler_substituted:
  assumes "getProp reqBody ''data'' = JStr b64" "b64 \<noteq> []"
    and "substituteTemplate (decode b64) reqBody = Inr sqlText" "\<not> isReadOnly sqlText"
  shows "advancedHandler decode db reqBody =
     ([], \<lparr>status = 400,
           body = JsonError ''Only read-only queries are permitted in advanced mode''\<rparr>)"
  using assms by (simp add: advancedHandler_def)

lemma advancedHandler_throws:
  assumes "getProp reqBody ''data'' = JStr b64" "b64 \<noteq> []"
    and "substituteTemplate (decode b64) reqBody = Inl e"
  shows "advancedHandler decode db reqBody =
     ([], \<lparr>status = 500, body = JsonError (errorMessage e)\<rparr>)"
  using assms by (simp add: advancedHandler_def)

text \<open>
  Claim C3, as amended. For an advanced request with a non-empty \<open>data\<close> string: when
  substitution succeeds and the upper-cased result contains a token of the denylist, the
  handler answers 400 and sends nothing to the database. A decoded template that contains
  \<open>DROP TABLE t\<close> never reaches the database, whatever the substitution values; it is
  answered with the guard's 400 whenever the body has, for every placeholder of the
  template, a value that can be rendered.
\<close>

theorem advanced_guard_rejects:
  assumes "getProp reqBody ''data'' = JStr b64" and "b64 \<noteq> []"
  shows "(\<forall>sqlText. substituteTemplate (decode b64) reqBody = Inr sqlText
            \<and> (\<exists>tok\<in>set banned. sublist tok (toUpperCase sqlText))
          \<longrightarrow> advancedHandler decode db reqBody =
                ([], \<lparr>status = 400,
                      body = JsonError ''Only read-only queries are permitted in advanced mode''\<rparr>))
       \<and> (sublist ''DROP TABLE t'' (decode b64)
          \<longrightarrow> fst (advancedHandler decode db reqBody) = []
              \<and> ((\<forall>k\<in>set (placeholders (decode b64)).
                     \<exists>v y. reqBody k = Some v \<and> renderValue v = Inr y)
                 \<longrightarrow> advancedHandler decode db reqBody =
                       ([], \<lparr>status = 400,
                             body = JsonError
                               ''Only read-only queries are permitted in advanced mode''\<rparr>)))"
proof (intro conjI allI impI)
  fix sqlText
  assume a: "substituteTemplate (decode b64) reqBody = Inr sqlText
            \<and> (\<exists>tok\<in>set banned. sublist tok (toUpperCase sqlText))"
  then have "\<not> isReadOnly sqlText"
    by (auto simp: isReadOnly_def includesStr_def list_ex_iff)
  with a assms show "advancedHandler decode db reqBody =
                ([], \<lparr>status = 400,
                      body = JsonError ''Only read-only queries are permitted in advanced mode''\<rparr>)"
    by (simp add: advancedHandler_substituted)
next
  assume d: "sublist ''DROP TABLE t'' (decode b64)"
  show "fst (advancedHandler decode db reqBody) = []"
  proof (cases "substituteTemplate (decode b64) reqBody")
    case (Inl e)
    from advancedHandler_throws[where decode = decode, OF assms Inl] show ?thesis by simp
  next
    case (Inr out)
    from substituteTemplate_keeps_drop_table[OF d Inr] have "\<not> isReadOnly out"
      by (rule drop_table_not_read_only)
    from advancedHandler_substituted[where decode = decode, OF assms Inr this] show ?thesis by simp
  qed
next
  assume d: "sublist ''DROP TABLE t'' (decode b64)"
    and p: "\<forall>k\<in>set (placeholders (decode b64)). \<exists>v y. reqBody k = Some v \<and> renderValue v = Inr y"
  from substituteTemplate_succeeds[OF p] obtain out
    where out: "substituteTemplate (decode b64) reqBody = Inr out" by blast
  from substituteTemplate_keeps_drop_table[OF d out] have "\<not> isReadOnly out"
    by (rule drop_table_not_read_only)
  from advancedHandler_substituted[where decode = decode, OF assms out this]
  show "advancedHandler decode db reqBody =
          ([], \<lparr>status = 400,
                body = JsonError ''Only read-only queries are permitted in advanced mode''\<rparr>)" .
qed

text \<open>The theorem at the template \<open>DROP TABLE t {{x}}\<close> and the value \<open>1\<close> for \<open>x\<close>.\<close>

theorem advanced_guard_rejects_witness:
  "advancedHandler (\<lambda>b. ''DROP TABLE t {{x}}'') (\<lambda>c. Inr \<lparr>recordsets = []\<rparr>)
       [''data'' \<mapsto> JStr ''RFJPUCBUQUJMRSB0IHt7eH19'', ''x'' \<mapsto> JStr ''1'']
     = ([], \<lparr>status = 400,
              body = JsonError ''Only read-only queries are permitted in advanced mode''\<rparr>)
   \<and> fst (advancedHandler (\<lambda>b. ''DROP TABLE t {{x}}'') (\<lambda>c. Inr \<lparr>recordsets = []\<rparr>)
       [''data'' \<mapsto> JStr ''RFJPUCBUQUJMRSB0IHt7eH19'', ''x'' \<mapsto> JStr ''1'']) = []"
proof -
  let ?body = "[''data'' \<mapsto> JStr ''RFJPUCBUQUJMRSB0IHt7eH19'', ''x'' \<mapsto> JStr ''1'']"
  let ?dec = "\<lambda>b :: string. ''DROP TABLE t {{x}}''"
  have 1: "getProp ?body ''data'' = JStr ''RFJPUCBUQUJMRSB0IHt7eH19''"
    by (simp add: getProp_def)
  have 2: "''RFJPUCBUQUJMRSB0IHt7eH19'' \<noteq> []" by simp
  have 3: "substituteTemplate ''DROP TABLE t {{x}}'' ?body = Inr ''DROP TABLE t 1''"
    by code_simp
  have 4: "\<exists>tok\<in>set banned. sublist tok (toUpperCase ''DROP TABLE t 1'')"
    by code_simp
  have 5: "sublist ''DROP TABLE t'' ''DROP TABLE t {{x}}''" by code_simp
  have "placeholders ''DROP TABLE t {{x}}'' = [''x'']" by code_simp
  moreover have "renderValue (JStr ''1'') = Inr ''1''" by code_simp
  ultimately have 6: "\<forall>k\<in>set (placeholders ''DROP TABLE t {{x}}'').
                         \<exists>v y. ?body k = Some v \<and> renderValue v = Inr y"
    by simp
  note w = advanced_guard_rejects[where decode = ?dec and db = "\<lambda>c. Inr \<lparr>recordsets = []\<rparr>", OF 1 2]
  from w[THEN conjunct1, rule_format, OF conjI[OF 3 4]]
  have a: "advancedHandler ?dec (\<lambda>c. Inr \<lparr>recordsets = []\<rparr>) ?body
     = ([], \<lparr>status = 400,
              body = JsonError ''Only read-only queries are permitted in advanced mode''\<rparr>)" .
  from w[THEN conjunct2, THEN mp, OF 5, THEN conjunct2, THEN mp, OF 6]
  have a': "advancedHandler ?dec (\<lambda>c. Inr \<lparr>recordsets = []\<rparr>) ?body
     = ([], \<lparr>status = 400,
              body = JsonError ''Only read-only queries are permitted in advanced mode''\<rparr>)" .
  from w[THEN conjunct2, THEN mp, OF 5, THEN conjunct1]
  have b: "fst (advancedHandler ?dec (\<lambda>c. Inr \<lparr>recordsets = []\<rparr>) ?body) = []" .
  from a a' b show ?thesis by simp
qed

text \<open>The claim as stated fails where substitution throws: that happens before the guard
  runs, and the answer is not the guard's 400. Here the template is \<open>DROP TABLE t {{x}}\<close>;
  in the first request \<open>x\<close> is an object that cannot be converted to a string, in the
  second the body has no \<open>x\<close>.\<close>

theorem drop_table_is_not_400_when_substitution_throws:
  "advancedHandler (\<lambda>b. ''DROP TABLE t {{x}}'') (\<lambda>c. Inr \<lparr>recordsets = []\<rparr>)
       [''data'' \<mapsto> JStr ''RFJPUCBUQUJMRSB0IHt7eH19'',
        ''x'' \<mapsto> JObj [(''toString'', JNum ''1'')]]
     = ([], \<lparr>status = 500, body = JsonError (errorMessage TypeError)\<rparr>)
   \<and> advancedHandler (\<lambda>b. ''DROP TABLE t {{x}}'') (\<lambda>c. Inr \<lparr>recordsets = []\<rparr>)
       [''data'' \<mapsto> JStr ''RFJPUCBUQUJMRSB0IHt7eH19'']
     = ([], \<lparr>status = 500,
              body = JsonError (''Missing variable '' @ [CHR 0x27] @ ''x'' @ [CHR 0x27])\<rparr>)"
  by code_simp

text \<open>
  Claim C4. An advanced request with a non-empty \<open>data\<close> string whose decoded template has
  a placeholder that is no property of the body should fail before any database call, as
  a client error (400). The handler does send nothing to the database, but its answer is
  500: substitution throws, no branch of the handler turns that exception into a 400 as
  it does for a missing \<open>data\<close> field and for a guard rejection, and the exception ends in
  the handler's general \<^verbatim>\<open>catch\<close>.
\<close>

theorem advanced_missing_variable:
  assumes "getProp reqBody ''data'' = JStr b64" and "b64 \<noteq> []"
    and "\<exists>k\<in>set (placeholders (decode b64)). reqBody k = None"
  shows "fst (advancedHandler decode db reqBody) = []
       \<and> status (snd (advancedHandler decode db reqBody)) = 500"
proof -
  from substituteTemplate_fails[OF assms(3)] obtain e
    where "substituteTemplate (decode b64) reqBody = Inl e" by blast
  from advancedHandler_throws[where decode = decode, OF assms(1,2) this] show ?thesis
    by simp
qed

text \<open>The theorem at the template \<open>SELECT {{missing}}\<close> and a body with only \<open>data\<close>.\<close>

theorem advanced_missing_variable_witness:
  "fst (advancedHandler (\<lambda>b. ''SELECT {{missing}}'') (\<lambda>c. Inr \<lparr>recordsets = []\<rparr>)
          [''data'' \<mapsto> JStr ''U0VMRUNUIHt7bWlzc2luZ319'']) = []
   \<and> status (snd (advancedHandler (\<lambda>b. ''SELECT {{missing}}'') (\<lambda>c. Inr \<lparr>recordsets = []\<rparr>)
          [''data'' \<mapsto> JStr ''U0VMRUNUIHt7bWlzc2luZ319''])) = 500"
proof -
  let ?body = "[''data'' \<mapsto> JStr ''U0VMRUNUIHt7bWlzc2luZ319'']"
  have 1: "getProp ?body ''data'' = JStr ''U0VMRUNUIHt7bWlzc2luZ319''"
    by (simp add: getProp_def)
  have 2: "''U0VMRUNUIHt7bWlzc2luZ319'' \<noteq> []" by simp
  have 3: "\<exists>k\<in>set (placeholders ''SELECT {{missing}}''). ?body k = None" by code_simp
  from advanced_missing_variable[where decode = "\<lambda>b. ''SELECT {{missing}}''", OF 1 2 3]
  show ?thesis .
qed

text \<open>The whole answer at that request: 500 with the message of the exception.\<close>

lemma missing_variable_answer:
  "advancedHandler (\<lambda>b. ''SELECT {{missing}}'') (\<lambda>c. Inr \<lparr>recordsets = []\<rparr>)
       [''data'' \<mapsto> JStr ''U0VMRUNUIHt7bWlzc2luZ319'']
     = ([], \<lparr>status = 500,
              body = JsonError (''Missing variable '' @ [CHR 0x27] @ ''missing'' @ [CHR 0x27])\<rparr>)"
  by code_simp

section \<open>Properties of the table routes\<close>

subsection \<open>Create\<close>




subsection \<open>List: pagination\<close>

text \<open>Reading a number: an integer below \<open>2 ^ 53\<close> is read exactly, and one from
  \<open>2 ^ 1024\<close> on is read as the infinity.\<close>

lemma bitLength_upper: "a < 2 ^ bitLength a"
proof (induction a rule: bitLength.induct)
  case (1 n)
  show ?case
  proof (cases "n \<le> 0")
    case True
    then show ?thesis by simp
  next
    case False
    with 1 have "n div 2 < 2 ^ bitLength (n div 2)" by simp
    then have "n < 2 * 2 ^ bitLength (n div 2)" by linarith
    with False show ?thesis by (subst bitLength.simps) simp
  qed
qed

lemma bitLength_lower: "0 < a \<Longrightarrow> 2 ^ (bitLength a - 1) \<le> a"
proof (induction a rule: bitLength.induct)
  case (1 n)
  show ?case
  proof (cases "n div 2 \<le> 0")
    case True
    with 1(2) have "n = 1" by linarith
    then show ?thesis by (subst bitLength.simps, subst bitLength.simps) simp
  next
    case False
    with 1 have ih: "2 ^ (bitLength (n div 2) - 1) \<le> n div 2" by simp
    from False have "0 < bitLength (n div 2)" by (subst bitLength.simps) simp
    then have "(2::int) ^ bitLength (n div 2) = 2 * 2 ^ (bitLength (n div 2) - 1)"
      by (cases "bitLength (n div 2)") simp_all
    with ih have "2 ^ bitLength (n div 2) \<le> n" by linarith
    with 1(2) show ?thesis by (subst bitLength.simps) simp
  qed
qed

lemma roundMagnitude_exact: "a < 2 ^ 53 \<Longrightarrow> roundMagnitude a = Some a"
  by (simp add: roundMagnitude_def)

lemma roundMagnitude_overflow:
  assumes "2 ^ 1024 \<le> a"
  shows "roundMagnitude a = None"
proof -
  define b where "b = bitLength a"
  define e where "e = b - 53"
  have pos: "0 < a" using assms by (smt (verit) zero_less_power)
  have lt: "(2::int) ^ 1024 < 2 ^ b"
    using assms bitLength_upper[of a] unfolding b_def by linarith
  have "(1::int) < 2" by simp
  from power_less_imp_less_exp[OF this lt] have b: "1024 < b" .
  then have be: "b - 1 = 52 + e" unfolding e_def by simp
  have low: "2 ^ 52 * 2 ^ e \<le> a"
    using bitLength_lower[OF pos] unfolding b_def[symmetric] be by (simp add: power_add)
  have "2 ^ 52 \<le> a div 2 ^ e"
  proof -
    have "(2 ^ 52 * 2 ^ e) div 2 ^ e \<le> a div 2 ^ e"
      using low by (rule zdiv_mono1) simp
    then show ?thesis by simp
  qed
  then have q: "\<And>q'. a div 2 ^ e \<le> q' \<Longrightarrow> (2::int) ^ 52 * 2 ^ e \<le> q' * 2 ^ e"
    by (simp add: mult_right_mono)
  have "(2::int) ^ 1024 \<le> 2 ^ (52 + e)" using b unfolding e_def by (intro power_increasing) auto
  then have p: "(2::int) ^ 1024 \<le> 2 ^ 52 * 2 ^ e" by (simp only: power_add)
  have big: "\<And>q'. a div 2 ^ e \<le> q' \<Longrightarrow> (2::int) ^ 1024 \<le> q' * 2 ^ e"
    by (rule order_trans[OF p]) (rule q)
  have "(2::int) ^ 53 \<le> 2 ^ 1024" by (intro power_increasing) auto
  with assms have n53: "\<not> a < 2 ^ 53" by linarith
  show ?thesis
    unfolding roundMagnitude_def Let_def b_def[symmetric] e_def[symmetric]
    using n53 big[of "a div 2 ^ e"] big[of "a div 2 ^ e + 1"] by (simp del: power_numeral)
qed

lemma toNumber_exact: "0 \<le> x \<Longrightarrow> x < 2 ^ 53 \<Longrightarrow> toNumber x = Finite x"
  by (simp add: toNumber_def roundMagnitude_exact)

lemma toNumber_overflow: "2 ^ 1024 \<le> x \<Longrightarrow> toNumber x = PosInfinity"
proof -
  assume a: "2 ^ 1024 \<le> x"
  then have "0 \<le> x" by (smt (verit) zero_less_power)
  with a show ?thesis by (simp add: toNumber_def roundMagnitude_overflow)
qed

lemma digit_not_space: "isDigit c \<Longrightarrow> \<not> isSpace c"
  by (auto simp: isDigit_def isSpace_def Let_def)

lemma digit_not_sign: "isDigit c \<Longrightarrow> c \<noteq> CHR ''-'' \<and> c \<noteq> CHR ''+''"
  by (auto simp: isDigit_def Let_def)

lemma parseInt_digits:
  assumes "s \<noteq> []" "list_all isDigit s"
  shows "parseInt s = toNumber (digitsToInt s)"
proof -
  from assms obtain c cs where s: "s = c # cs" and c: "isDigit c" by (cases s) auto
  have 1: "dropWhile isSpace s = s" using s c by (simp add: digit_not_space)
  have 2: "takeWhile isDigit s = s" using assms(2) by (simp add: list_all_iff)
  show ?thesis
    unfolding parseInt_def Let_def 1 using s digit_not_sign[OF c] 2 by simp
qed

lemma digitsToInt_nonneg: "list_all isDigit s \<Longrightarrow> 0 \<le> digitsToInt s"
proof -
  have "list_all isDigit s \<Longrightarrow> 0 \<le> a \<Longrightarrow> 0 \<le> foldl (\<lambda>a c. 10 * a + (of_char c - 48)) a s" for a :: int
  proof (induction s arbitrary: a)
    case Nil
    then show ?case by simp
  next
    case (Cons c s)
    have "(of_char c :: int) = int (of_char c)" by (rule of_nat_of_char[symmetric])
    moreover from Cons.prems(1) have "(48::nat) \<le> of_char c"
      by (simp add: isDigit_def Let_def)
    ultimately have "(48::int) \<le> of_char c" by linarith
    with Cons.prems have "0 \<le> 10 * a + (of_char c - 48)" by simp
    with Cons show ?case by simp
  qed
  then show "list_all isDigit s \<Longrightarrow> 0 \<le> digitsToInt s" by (simp add: digitsToInt_def)
qed

lemma parseOffset_nonneg: "0 \<le> parseOffset q"
  by (simp add: parseOffset_def Let_def split: option.splits jsNumber.splits)

lemma parseLimit_digits:
  assumes "q ''limit'' = Some s" "s \<noteq> []" "list_all isDigit s"
  shows "digitsToInt s < 2 ^ 53 \<Longrightarrow> parseLimit q = digitsToInt s"
    and "2 ^ 1024 \<le> digitsToInt s \<Longrightarrow> parseLimit q = - 1"
proof -
  have p: "parseInt s = toNumber (digitsToInt s)" using assms(2,3) by (rule parseInt_digits)
  show "digitsToInt s < 2 ^ 53 \<Longrightarrow> parseLimit q = digitsToInt s"
    using digitsToInt_nonneg[OF assms(3)] assms(1)
    by (simp add: parseLimit_def p toNumber_exact)
  show "2 ^ 1024 \<le> digitsToInt s \<Longrightarrow> parseLimit q = - 1"
    using assms(1) by (simp add: parseLimit_def p toNumber_overflow)
qed

lemma listQuery_text:
  assumes "chooseOrder m q = Inr (orderCol, orderDir)"
  shows "listQuery m q =
           Inr \<lparr>queryText =
                  ''SELECT * FROM '' @ qName (schema m) (table m) @ '' '' @ whereSql m q @ '' ''
                  @ ''ORDER BY ['' @ orderCol @ ''] '' @ orderDir
                  @ (if parseLimit q < 0 \<and> parseOffset q = 0 then []
                     else if parseLimit q < 0 then '' OFFSET @offset ROWS''
                     else '' OFFSET @offset ROWS FETCH NEXT @limit ROWS ONLY''),
                queryParams =
                  map (filterInput q) (listFilters m q)
                  @ (if parseLimit q < 0 \<and> parseOffset q = 0 then []
                     else if parseLimit q < 0
                       then [\<lparr>paramName = ''offset'', paramType = SqlInt,
                               paramValue = JNum (numberToString (parseOffset q))\<rparr>]
                     else [\<lparr>paramName = ''offset'', paramType = SqlInt,
                             paramValue = JNum (numberToString (parseOffset q))\<rparr>,
                           \<lparr>paramName = ''limit'', paramType = SqlInt,
                             paramValue = JNum (numberToString (parseLimit q))\<rparr>])\<rparr>"
  using assms parseOffset_nonneg[of q] by (simp add: listQuery_def Let_def)

text \<open>
  Claim C6, as amended. The limit of a list request is the number that \<^verbatim>\<open>parseInt\<close>
  reads from the \<open>limit\<close> parameter where that number is finite, and -1 otherwise: where
  the parameter is missing, where it does not start with an integer, and where the
  integer is so large that it is read as the infinity. So a run of digits that writes less
  than \<open>2 ^ 53\<close> gives that limit, and one that writes \<open>2 ^ 1024\<close> or more gives -1. The
  offset is read in the same way with 0 in place of -1, and a negative offset becomes 0.
  Where the sort column is found, the text of the list statement is the select with its
  filter and \<open>ORDER BY\<close> clause, followed by nothing when the limit is negative and the
  offset is zero, by \<open>OFFSET @offset ROWS\<close> alone when the limit is negative and the
  offset is not zero, and by \<open>OFFSET @offset ROWS FETCH NEXT @limit ROWS ONLY\<close> when the
  limit is not negative; the parameters \<open>offset\<close> and \<open>limit\<close> are bound exactly when
  the text names them.
\<close>

theorem list_pagination_clause:
  assumes "chooseOrder m q = Inr (orderCol, orderDir)"
  shows "listQuery m q =
           Inr \<lparr>queryText =
                  ''SELECT * FROM '' @ qName (schema m) (table m) @ '' '' @ whereSql m q @ '' ''
                  @ ''ORDER BY ['' @ orderCol @ ''] '' @ orderDir
                  @ (if parseLimit q < 0 \<and> parseOffset q = 0 then []
                     else if parseLimit q < 0 then '' OFFSET @offset ROWS''
                     else '' OFFSET @offset ROWS FETCH NEXT @limit ROWS ONLY''),
                queryParams =
                  map (filterInput q) (listFilters m q)
                  @ (if parseLimit q < 0 \<and> parseOffset q = 0 then []
                     else if parseLimit q < 0
                       then [\<lparr>paramName = ''offset'', paramType = SqlInt,
                               paramValue = JNum (numberToString (parseOffset q))\<rparr>]
                     else [\<lparr>paramName = ''offset'', paramType = SqlInt,
                             paramValue = JNum (numberToString (parseOffset q))\<rparr>,
                           \<lparr>paramName = ''limit'', paramType = SqlInt,
                             paramValue = JNum (numberToString (parseLimit q))\<rparr>])\<rparr>
         \<and> parseLimit q = (case q ''limit'' of
                             None \<Rightarrow> - 1
                           | Some s \<Rightarrow> (case parseInt s of Finite n \<Rightarrow> n | _ \<Rightarrow> - 1))
         \<and> parseOffset q = (case q ''offset'' of
                              None \<Rightarrow> 0
                            | Some s \<Rightarrow> (case parseInt s of Finite n \<Rightarrow> max 0 n | _ \<Rightarrow> 0))
         \<and> (\<forall>s. q ''limit'' = Some s \<and> s \<noteq> [] \<and> list_all isDigit s \<longrightarrow>
                (digitsToInt s < 2 ^ 53 \<longrightarrow> parseLimit q = digitsToInt s)
                \<and> (2 ^ 1024 \<le> digitsToInt s \<longrightarrow> parseLimit q = - 1))"
proof (intro conjI allI impI)
  show "listQuery m q = Inr \<lparr>queryText =
                  ''SELECT * FROM '' @ qName (schema m) (table m) @ '' '' @ whereSql m q @ '' ''
                  @ ''ORDER BY ['' @ orderCol @ ''] '' @ orderDir
                  @ (if parseLimit q < 0 \<and> parseOffset q = 0 then []
                     else if parseLimit q < 0 then '' OFFSET @offset ROWS''
                     else '' OFFSET @offset ROWS FETCH NEXT @limit ROWS ONLY''),
                queryParams =
                  map (filterInput q) (listFilters m q)
                  @ (if parseLimit q < 0 \<and> parseOffset q = 0 then []
                     else if parseLimit q < 0
                       then [\<lparr>paramName = ''offset'', paramType = SqlInt,
                               paramValue = JNum (numberToString (parseOffset q))\<rparr>]
                     else [\<lparr>paramName = ''offset'', paramType = SqlInt,
                             paramValue = JNum (numberToString (parseOffset q))\<rparr>,
                           \<lparr>paramName = ''limit'', paramType = SqlInt,
                             paramValue = JNum (numberToString (parseLimit q))\<rparr>])\<rparr>"
    using assms by (rule listQuery_text)
next
  show "parseLimit q = (case q ''limit'' of
                             None \<Rightarrow> - 1
                           | Some s \<Rightarrow> (case parseInt s of Finite n \<Rightarrow> n | _ \<Rightarrow> - 1))"
    by (simp add: parseLimit_def)
next
  show "parseOffset q = (case q ''offset'' of
                              None \<Rightarrow> 0
                            | Some s \<Rightarrow> (case parseInt s of Finite n \<Rightarrow> max 0 n | _ \<Rightarrow> 0))"
    by (simp add: parseOffset_def Let_def max_def split: option.splits jsNumber.splits)
next
  fix s
  assume "q ''limit'' = Some s \<and> s \<noteq> [] \<and> list_all isDigit s"
    and "digitsToInt s < 2 ^ 53"
  then show "parseLimit q = digitsToInt s" by (simp add: parseLimit_digits(1))
next
  fix s
  assume "q ''limit'' = Some s \<and> s \<noteq> [] \<and> list_all isDigit s"
    and "2 ^ 1024 \<le> digitsToInt s"
  then show "parseLimit q = - 1" by (simp add: parseLimit_digits(2))
qed

text \<open>
  The theorem on the example table with \<open>limit=10&offset=5\<close>, the defaults, a negative
  offset, and a limit of 400 digits.
\<close>

theorem list_pagination_clause_witness:
  "listQuery exampleTable [''limit'' \<mapsto> ''10'', ''offset'' \<mapsto> ''5''] =
     Inr \<lparr>queryText = ''SELECT * FROM [dbo].[Widgets]  ORDER BY [id] ASC OFFSET @offset ROWS FETCH NEXT @limit ROWS ONLY'',
          queryParams = [\<lparr>paramName = ''offset'', paramType = SqlInt, paramValue = JNum ''5''\<rparr>,
                         \<lparr>paramName = ''limit'', paramType = SqlInt, paramValue = JNum ''10''\<rparr>]\<rparr>
   \<and> parseLimit Map.empty = - 1 \<and> parseOffset Map.empty = 0
   \<and> parseOffset [''offset'' \<mapsto> ''-3''] = 0
   \<and> parseLimit [''limit'' \<mapsto> ''10'', ''offset'' \<mapsto> ''5''] = 10
   \<and> parseLimit [''limit'' \<mapsto> replicate 400 (CHR ''9'')] = - 1"
proof -
  let ?q = "[''limit'' \<mapsto> ''10'', ''offset'' \<mapsto> ''5'']"
  let ?big = "[''limit'' \<mapsto> replicate 400 (CHR ''9'')]"
  have h: "chooseOrder exampleTable ?q = Inr (''id'', ''ASC'')" by code_simp
  have e: "parseLimit ?q = 10" "parseOffset ?q = 5" "whereSql exampleTable ?q = []"
    "listFilters exampleTable ?q = []"
    "qName (schema exampleTable) (table exampleTable) = ''[dbo].[Widgets]''"
    "numberToString 5 = ''5''" "numberToString 10 = ''10''"
    by code_simp+
  have h0: "chooseOrder exampleTable Map.empty = Inr (''id'', ''ASC'')" by code_simp
  have h3: "chooseOrder exampleTable [''offset'' \<mapsto> ''-3''] = Inr (''id'', ''ASC'')" by code_simp
  have hb: "chooseOrder exampleTable ?big = Inr (''id'', ''ASC'')" by code_simp
  have p3: "parseInt ''-3'' = Finite (- 3)" by code_simp
  have d10: "?q ''limit'' = Some ''10'' \<and> ''10'' \<noteq> [] \<and> list_all isDigit ''10''"
    by (simp add: isDigit_def)
  have v10: "digitsToInt ''10'' = 10" "digitsToInt ''10'' < 2 ^ 53" by code_simp+
  have db: "?big ''limit'' = Some (replicate 400 (CHR ''9'')) \<and> replicate 400 (CHR ''9'') \<noteq> []
            \<and> list_all isDigit (replicate 400 (CHR ''9''))"
    by (simp add: isDigit_def list_all_iff)
  have vb: "2 ^ 1024 \<le> digitsToInt (replicate 400 (CHR ''9''))" by code_simp
  from list_pagination_clause[OF h, THEN conjunct1]
  have a: "listQuery exampleTable ?q =
     Inr \<lparr>queryText = ''SELECT * FROM [dbo].[Widgets]  ORDER BY [id] ASC OFFSET @offset ROWS FETCH NEXT @limit ROWS ONLY'',
          queryParams = [\<lparr>paramName = ''offset'', paramType = SqlInt, paramValue = JNum ''5''\<rparr>,
                         \<lparr>paramName = ''limit'', paramType = SqlInt, paramValue = JNum ''10''\<rparr>]\<rparr>"
    by (simp add: e)
  from list_pagination_clause[OF h0, THEN conjunct2]
  have b: "parseLimit Map.empty = - 1 \<and> parseOffset Map.empty = 0" by simp
  from list_pagination_clause[OF h3, THEN conjunct2, THEN conjunct2, THEN conjunct1]
  have c: "parseOffset [''offset'' \<mapsto> ''-3''] = 0" by (simp add: p3)
  from list_pagination_clause[OF h, THEN conjunct2, THEN conjunct2, THEN conjunct2,
         THEN spec, THEN mp, OF d10, THEN conjunct1, THEN mp, OF v10(2)]
  have d: "parseLimit ?q = 10" by (simp only: v10(1))
  from list_pagination_clause[OF hb, THEN conjunct2, THEN conjunct2, THEN conjunct2,
         THEN spec, THEN mp, OF db, THEN conjunct2, THEN mp, OF vb]
  have f: "parseLimit ?big = - 1" .
  from a b c d f show ?thesis by blast
qed

text \<open>The claim as stated fails for a limit that is not negative but too large to be read
  as a finite number: the handler takes -1 for it and the statement has no \<open>FETCH\<close>
  clause, so the request is not capped. Here the limit is a run of 400 nines.\<close>

theorem huge_limit_is_not_applied:
  "listQuery exampleTable [''limit'' \<mapsto> replicate 400 (CHR ''9'')] =
     Inr \<lparr>queryText = ''SELECT * FROM [dbo].[Widgets]  ORDER BY [id] ASC'', queryParams = []\<rparr>"
proof -
  let ?big = "[''limit'' \<mapsto> replicate 400 (CHR ''9'')]"
  have hb: "chooseOrder exampleTable ?big = Inr (''id'', ''ASC'')" by code_simp
  have "2 ^ 1024 \<le> digitsToInt (replicate 400 (CHR ''9''))" by code_simp
  then have l: "parseLimit ?big = - 1"
    by (intro parseLimit_digits(2)[of _ "replicate 400 (CHR ''9'')"])
       (simp_all add: isDigit_def list_all_iff)
  have e: "parseOffset ?big = 0" "whereSql exampleTable ?big = []"
    "listFilters exampleTable ?big = []"
    "qName (schema exampleTable) (table exampleTable) = ''[dbo].[Widgets]''"
    by code_simp+
  from listQuery_text[OF hb] show ?thesis by (simp add: l e)
qed

subsection \<open>List: sort column\<close>











subsection \<open>Update\<close>




subsection \<open>Registration\<close>

text \<open>
  Claim C9, as amended. \<open>registerRoutes\<close> adds the get-by-key, create, update and delete
  routes exactly when the object is not a view and its primary-key list has a first
  column with a non-empty name; the single-row routes are keyed by that first column,
  also when the primary key has more columns. A view, and a table with no primary key,
  get the list route only.
\<close>

theorem write_routes_iff_first_pk:
  "(\<not> isView m \<and> (\<exists>p ps. pk m = p # ps \<and> p \<noteq> []) \<longrightarrow>
      map (\<lambda>r. (routeMethod r, routePath r)) (registerRoutes m endpoint) =
        [(GET, ''/'' @ endpoint @ ''/t/'' @ table m),
         (GET, ''/'' @ endpoint @ ''/t/'' @ table m @ ''/:'' @ hd (pk m)),
         (POST, ''/'' @ endpoint @ ''/t/'' @ table m),
         (PUT, ''/'' @ endpoint @ ''/t/'' @ table m @ ''/:'' @ hd (pk m)),
         (DELETE, ''/'' @ endpoint @ ''/t/'' @ table m @ ''/:'' @ hd (pk m))])
   \<and> (isView m \<or> pk m = [] \<or> hd (pk m) = [] \<longrightarrow>
      map (\<lambda>r. (routeMethod r, routePath r)) (registerRoutes m endpoint) =
        [(GET, ''/'' @ endpoint @ ''/'' @ (if isView m then ''v'' else ''t'') @ ''/'' @ table m)])"
proof (intro conjI impI)
  assume "\<not> isView m \<and> (\<exists>p ps. pk m = p # ps \<and> p \<noteq> [])"
  then obtain p ps where v: "\<not> isView m" and k: "pk m = p # ps" "p \<noteq> []" by blast
  from k have "firstPk m = Some p" by (simp add: firstPk_def)
  with v k show "map (\<lambda>r. (routeMethod r, routePath r)) (registerRoutes m endpoint) =
        [(GET, ''/'' @ endpoint @ ''/t/'' @ table m),
         (GET, ''/'' @ endpoint @ ''/t/'' @ table m @ ''/:'' @ hd (pk m)),
         (POST, ''/'' @ endpoint @ ''/t/'' @ table m),
         (PUT, ''/'' @ endpoint @ ''/t/'' @ table m @ ''/:'' @ hd (pk m)),
         (DELETE, ''/'' @ endpoint @ ''/t/'' @ table m @ ''/:'' @ hd (pk m))]"
    by (simp add: registerRoutes_def routePath_def Let_def)
next
  assume "isView m \<or> pk m = [] \<or> hd (pk m) = []"
  then have "isView m \<or> firstPk m = None"
    by (auto simp: firstPk_def split: list.splits)
  then show "map (\<lambda>r. (routeMethod r, routePath r)) (registerRoutes m endpoint) =
        [(GET, ''/'' @ endpoint @ ''/'' @ (if isView m then ''v'' else ''t'') @ ''/'' @ table m)]"
    by (auto simp: registerRoutes_def routePath_def Let_def split: option.splits)
qed

text \<open>
  The theorem on the example table, and on the same table without a primary key.
\<close>

theorem write_routes_iff_first_pk_witness:
  "map (\<lambda>r. (routeMethod r, routePath r)) (registerRoutes exampleTable ''api'') =
     [(GET, ''/api/t/Widgets''), (GET, ''/api/t/Widgets/:id''), (POST, ''/api/t/Widgets''),
      (PUT, ''/api/t/Widgets/:id''), (DELETE, ''/api/t/Widgets/:id'')]
   \<and> map (\<lambda>r. (routeMethod r, routePath r)) (registerRoutes (exampleTable\<lparr>pk := []\<rparr>) ''api'') =
     [(GET, ''/api/t/Widgets'')]"
proof -
  have a: "\<not> isView exampleTable \<and> (\<exists>p ps. pk exampleTable = p # ps \<and> p \<noteq> [])"
    by (simp add: exampleTable_def)
  have b: "isView (exampleTable\<lparr>pk := []\<rparr>) \<or> pk (exampleTable\<lparr>pk := []\<rparr>) = []
           \<or> hd (pk (exampleTable\<lparr>pk := []\<rparr>)) = []"
    by simp
  from write_routes_iff_first_pk[of exampleTable "''api''", THEN conjunct1, rule_format, OF a]
  have 1: "map (\<lambda>r. (routeMethod r, routePath r)) (registerRoutes exampleTable ''api'') =
     [(GET, ''/api/t/Widgets''), (GET, ''/api/t/Widgets/:id''), (POST, ''/api/t/Widgets''),
      (PUT, ''/api/t/Widgets/:id''), (DELETE, ''/api/t/Widgets/:id'')]"
    by (simp add: exampleTable_def)
  from write_routes_iff_first_pk[of "exampleTable\<lparr>pk := []\<rparr>" "''api''", THEN conjunct2, rule_format, OF b]
  have 2: "map (\<lambda>r. (routeMethod r, routePath r)) (registerRoutes (exampleTable\<lparr>pk := []\<rparr>) ''api'') =
     [(GET, ''/api/t/Widgets'')]"
    by (simp add: exampleTable_def)
  from 1 2 show ?thesis by blast
qed

text \<open>
  The claim as stated fails for a table with a two-column primary key: it gets all five
  routes, the single-row ones keyed by the first key column.
\<close>

theorem multi_column_pk_gets_write_routes:
  "\<lparr>routeMethod = DELETE, routeEndpoint = ''api'', routeKind = ''t'',
     routeName = Some ''OrderLines'', routeParam = Some ''orderId''\<rparr>
     \<in> set (registerRoutes
              \<lparr>schema = ''dbo'', table = ''OrderLines'',
               columns = [\<lparr>COLUMN_NAME = ''orderId'', DATA_TYPE = ''int'', IS_NULLABLE = ''NO'',
                           CHARACTER_MAXIMUM_LENGTH = None\<rparr>,
                          \<lparr>COLUMN_NAME = ''lineNo'', DATA_TYPE = ''int'', IS_NULLABLE = ''NO'',
                           CHARACTER_MAXIMUM_LENGTH = None\<rparr>],
               pk = [''orderId'', ''lineNo''], isView = False, hasTriggers = False,
               identity = None\<rparr> ''api'')
   \<and> length (registerRoutes
              \<lparr>schema = ''dbo'', table = ''OrderLines'',
               columns = [\<lparr>COLUMN_NAME = ''orderId'', DATA_TYPE = ''int'', IS_NULLABLE = ''NO'',
                           CHARACTER_MAXIMUM_LENGTH = None\<rparr>,
                          \<lparr>COLUMN_NAME = ''lineNo'', DATA_TYPE = ''int'', IS_NULLABLE = ''NO'',
                           CHARACTER_MAXIMUM_LENGTH = None\<rparr>],
               pk = [''orderId'', ''lineNo''], isView = False, hasTriggers = False,
               identity = None\<rparr> ''api'') = 5"
  by (simp add: registerRoutes_def firstPk_def Let_def)

section \<open>Properties of discovery\<close>

lemma fold_step:
  assumes "\<And>x st. step x st = (fst st @ rf x, (snd st)(kf x \<mapsto> vf x))"
  shows "fold step xs st =
     (fst st @ concat (map rf xs), fold (\<lambda>x s. s(kf x \<mapsto> vf x)) xs (snd st))"
proof (induction xs arbitrary: st)
  case Nil
  then show ?case by simp
next
  case (Cons x xs)
  have s: "step x st = (fst st @ rf x, (snd st)(kf x \<mapsto> vf x))" by (rule assms)
  show ?case
    by (simp only: fold_simps comp_apply Cons.IH s fst_conv snd_conv concat.simps list.map
        append_assoc)
qed

lemma fold_upd_Some:
  "fold (\<lambda>x s. s(kf x \<mapsto> vf x)) xs s k = Some f \<Longrightarrow>
     (\<exists>x\<in>set xs. kf x = k \<and> vf x = f) \<or> s k = Some f"
proof (induction xs arbitrary: s)
  case Nil
  then show ?case by simp
next
  case (Cons x xs)
  from Cons.IH[of "s(kf x \<mapsto> vf x)"] Cons.prems
  have "(\<exists>y\<in>set xs. kf y = k \<and> vf y = f) \<or> (s(kf x \<mapsto> vf x)) k = Some f" by simp
  then show ?case by (auto split: if_splits)
qed

lemma fold_upd_dom:
  "dom (fold (\<lambda>x s. s(kf x \<mapsto> vf x)) xs s) = dom s \<union> kf ` set xs"
  by (induction xs arbitrary: s) auto

lemma setup_unfold:
  "setupDynamicRoutes cfg found =
     (let e = endpointName cfg;
          r4 = concat (map (\<lambda>t. registerRoutes (t\<lparr>isView := False\<rparr>) e) (tables found))
               @ concat (map (\<lambda>v. registerRoutes
                   (v\<lparr>pk := [], isView := True, hasTriggers := False, identity := None\<rparr>) e)
                   (views found))
               @ concat (map (\<lambda>p. registerProcRoutes p e) (procs found))
               @ concat (map (\<lambda>f. registerFunctionRoutes f e) (funcs found));
          s4 = fold (\<lambda>f s. s(e @ ''_'' @ func f \<mapsto> funcFragment f)) (funcs found)
                (fold (\<lambda>p s. s(e @ ''_'' @ proc p \<mapsto> procFragment p)) (procs found)
                  (fold (\<lambda>v s. s(e @ ''_'' @ table v \<mapsto> viewFragment v)) (views found)
                    (fold (\<lambda>t s. s(e @ ''_'' @ table t \<mapsto> tableFragment t)) (tables found)
                       Map.empty)))
      in if cfgAdvanced cfg
         then (r4 @ registerAdvancedRoute e, s4(e @ ''_advanced'' \<mapsto> advancedFragment))
         else (r4, s4))"
proof -
  have t: "\<And>e xs st. fold (tableStep e) xs st =
      (fst st @ concat (map (\<lambda>t. registerRoutes (t\<lparr>isView := False\<rparr>) e) xs),
       fold (\<lambda>t s. s(e @ ''_'' @ table t \<mapsto> tableFragment t)) xs (snd st))"
    by (rule fold_step) (simp add: tableStep_def)
  have v: "\<And>e xs st. fold (viewStep e) xs st =
      (fst st @ concat (map (\<lambda>v. registerRoutes
          (v\<lparr>pk := [], isView := True, hasTriggers := False, identity := None\<rparr>) e) xs),
       fold (\<lambda>v s. s(e @ ''_'' @ table v \<mapsto> viewFragment v)) xs (snd st))"
    by (rule fold_step) (simp add: viewStep_def)
  have p: "\<And>e xs st. fold (procStep e) xs st =
      (fst st @ concat (map (\<lambda>p. registerProcRoutes p e) xs),
       fold (\<lambda>p s. s(e @ ''_'' @ proc p \<mapsto> procFragment p)) xs (snd st))"
    by (rule fold_step) (simp add: procStep_def)
  have f: "\<And>e xs st. fold (funcStep e) xs st =
      (fst st @ concat (map (\<lambda>f. registerFunctionRoutes f e) xs),
       fold (\<lambda>f s. s(e @ ''_'' @ func f \<mapsto> funcFragment f)) xs (snd st))"
    by (rule fold_step) (simp add: funcStep_def)
  show ?thesis
    by (simp add: setupDynamicRoutes_def Let_def t v p f advancedStep_def)
qed

lemma schemas_sound:
  assumes "snd (setupDynamicRoutes cfg found) k = Some f"
  shows "\<exists>(kind, n)\<in>set (discoveredObjects cfg found).
           k = endpointName cfg @ ''_'' @ n \<and> xKind f = kind"
proof -
  define e where "e = endpointName cfg"
  define s1 where "s1 = fold (\<lambda>t s. s(e @ ''_'' @ table t \<mapsto> tableFragment t)) (tables found)
                       (Map.empty :: schemas)"
  define s2 where "s2 = fold (\<lambda>v s. s(e @ ''_'' @ table v \<mapsto> viewFragment v)) (views found) s1"
  define s3 where "s3 = fold (\<lambda>p s. s(e @ ''_'' @ proc p \<mapsto> procFragment p)) (procs found) s2"
  define s4 where "s4 = fold (\<lambda>f s. s(e @ ''_'' @ func f \<mapsto> funcFragment f)) (funcs found) s3"
  have 1: "s1 k = Some f \<Longrightarrow> \<exists>t\<in>set (tables found). k = e @ ''_'' @ table t \<and> xKind f = ''t''"
    unfolding s1_def by (drule fold_upd_Some) (auto simp: tableFragment_def)
  have 2: "s2 k = Some f \<Longrightarrow>
      (\<exists>v\<in>set (views found). k = e @ ''_'' @ table v \<and> xKind f = ''v'') \<or> s1 k = Some f"
    unfolding s2_def by (drule fold_upd_Some) (auto simp: viewFragment_def)
  have 3: "s3 k = Some f \<Longrightarrow>
      (\<exists>p\<in>set (procs found). k = e @ ''_'' @ proc p \<and> xKind f = ''p'') \<or> s2 k = Some f"
    unfolding s3_def by (drule fold_upd_Some) (auto simp: procFragment_def)
  have 4: "s4 k = Some f \<Longrightarrow>
      (\<exists>g\<in>set (funcs found). k = e @ ''_'' @ func g \<and> xKind f = ''f'') \<or> s3 k = Some f"
    unfolding s4_def by (drule fold_upd_Some) (auto simp: funcFragment_def)
  have 5: "(cfgAdvanced cfg \<and> k = e @ ''_'' @ ''advanced'' \<and> xKind f = ''a'') \<or> s4 k = Some f"
    using assms
    by (auto simp: setup_unfold Let_def e_def s1_def s2_def s3_def s4_def advancedFragment_def
        split: if_splits)
  from 1 2 3 4 5 show ?thesis
    unfolding discoveredObjects_def e_def[symmetric] by fastforce
qed

lemma schemas_complete:
  assumes "(kind, n) \<in> set (discoveredObjects cfg found)"
  shows "endpointName cfg @ ''_'' @ n \<in> dom (snd (setupDynamicRoutes cfg found))"
  using assms
  by (auto simp: setup_unfold Let_def discoveredObjects_def fold_upd_dom split: if_splits)

lemma registerRoutes_route:
  "r \<in> set (registerRoutes m e) \<Longrightarrow>
     routeEndpoint r = e \<and> routeKind r = (if isView m then ''v'' else ''t'')
     \<and> routeName r = Some (table m)"
  by (auto simp: registerRoutes_def Let_def split: option.splits if_splits)

lemma registerRoutes_nonempty:
  "\<exists>r\<in>set (registerRoutes m e). routeKind r = (if isView m then ''v'' else ''t'')
      \<and> routeName r = Some (table m)"
  by (auto simp: registerRoutes_def Let_def)

lemma routes_objects:
  assumes "r \<in> set (fst (setupDynamicRoutes cfg found))"
  shows "routeEndpoint r = endpointName cfg
       \<and> (routeKind r, routeObjectName r) \<in> set (discoveredObjects cfg found)
       \<and> (routeName r = None \<longleftrightarrow> routeKind r = ''a'')"
  using assms
  by (auto simp: setup_unfold Let_def discoveredObjects_def routeObjectName_def registerProcRoutes_def
      registerFunctionRoutes_def registerAdvancedRoute_def
      dest!: registerRoutes_route split: if_splits)

lemma objects_routes:
  assumes "(kind, n) \<in> set (discoveredObjects cfg found)"
  shows "\<exists>r\<in>set (fst (setupDynamicRoutes cfg found)). routeKind r = kind \<and> routeObjectName r = n"
proof -
  from assms consider
    t where "t \<in> set (tables found)" "kind = ''t''" "n = table t"
  | v where "v \<in> set (views found)" "kind = ''v''" "n = table v"
  | p where "p \<in> set (procs found)" "kind = ''p''" "n = proc p"
  | f where "f \<in> set (funcs found)" "kind = ''f''" "n = func f"
  | "cfgAdvanced cfg" "kind = ''a''" "n = ''advanced''"
    by (auto simp: discoveredObjects_def split: if_splits)
  then show ?thesis
  proof cases
    case 1
    from registerRoutes_nonempty[of "t\<lparr>isView := False\<rparr>" "endpointName cfg"] 1
    show ?thesis by (auto simp: setup_unfold Let_def routeObjectName_def)
  next
    case 2
    from registerRoutes_nonempty[of
        "v\<lparr>pk := [], isView := True, hasTriggers := False, identity := None\<rparr>" "endpointName cfg"] 2
    show ?thesis by (auto simp: setup_unfold Let_def routeObjectName_def)
  next
    case 3
    let ?r = "\<lparr>routeMethod = POST, routeEndpoint = endpointName cfg, routeKind = ''p'',
               routeName = Some (proc p), routeParam = None\<rparr>"
    have "?r \<in> set (fst (setupDynamicRoutes cfg found))"
      using 3 by (auto simp: setup_unfold Let_def registerProcRoutes_def)
    moreover have "routeKind ?r = kind \<and> routeObjectName ?r = n"
      using 3 by (simp add: routeObjectName_def)
    ultimately show ?thesis by blast
  next
    case 4
    let ?r = "\<lparr>routeMethod = POST, routeEndpoint = endpointName cfg, routeKind = ''f'',
               routeName = Some (func f), routeParam = None\<rparr>"
    have "?r \<in> set (fst (setupDynamicRoutes cfg found))"
      using 4 by (auto simp: setup_unfold Let_def registerFunctionRoutes_def)
    moreover have "routeKind ?r = kind \<and> routeObjectName ?r = n"
      using 4 by (simp add: routeObjectName_def)
    ultimately show ?thesis by blast
  next
    case 5
    let ?r = "\<lparr>routeMethod = POST, routeEndpoint = endpointName cfg, routeKind = ''a'',
               routeName = None, routeParam = None\<rparr>"
    have "?r \<in> set (fst (setupDynamicRoutes cfg found))"
      using 5 by (auto simp: setup_unfold Let_def registerAdvancedRoute_def)
    moreover have "routeKind ?r = kind \<and> routeObjectName ?r = n"
      using 5 by (simp add: routeObjectName_def)
    ultimately show ?thesis by blast
  qed
qed

text \<open>
  Claim C10, as amended. When no two discovered objects of an endpoint with different
  kinds share a name (the advanced capability counting as an object named \<open>advanced\<close>),
  then after \<open>setupDynamicRoutes\<close> every registered route has exactly one entry of the
  returned schema object that corresponds to its triple, and every entry corresponds to
  the triple of exactly one registered route.
\<close>

theorem routes_match_schemas:
  assumes "\<forall>(k, n)\<in>set (discoveredObjects cfg found).
             \<forall>(k', n')\<in>set (discoveredObjects cfg found). n = n' \<longrightarrow> k = k'"
  shows "routesMatchSchemas (fst (setupDynamicRoutes cfg found))
           (snd (setupDynamicRoutes cfg found))"
proof -
  let ?routes = "fst (setupDynamicRoutes cfg found)"
  let ?sch = "snd (setupDynamicRoutes cfg found)"
  let ?objs = "set (discoveredObjects cfg found)"
  let ?e = "endpointName cfg"
  have kind_of: "xKind frag = kind"
    if "(kind, n) \<in> ?objs" and "?sch (?e @ ''_'' @ n) = Some frag" for kind n frag
  proof -
    from schemas_sound[OF that(2)] obtain kind' n'
      where "(kind', n') \<in> ?objs" "?e @ ''_'' @ n = ?e @ ''_'' @ n'" "xKind frag = kind'"
      by blast
    with assms that(1) show ?thesis by auto
  qed
  have part1: "\<exists>!key. \<exists>frag. ?sch key = Some frag \<and> corresponds r key frag"
    if r: "r \<in> set ?routes" for r
  proof -
    from routes_objects[OF r] have e: "routeEndpoint r = ?e"
      and o: "(routeKind r, routeObjectName r) \<in> ?objs" by simp_all
    from schemas_complete[OF o] obtain frag
      where f: "?sch (?e @ ''_'' @ routeObjectName r) = Some frag" by blast
    from kind_of[OF o f] have "xKind frag = routeKind r" .
    with f e have "?sch (fragmentKey r) = Some frag \<and> corresponds r (fragmentKey r) frag"
      by (simp add: fragmentKey_def corresponds_def)
    then show ?thesis
      by (intro ex1I[of _ "fragmentKey r"]) (auto simp: corresponds_def)
  qed
  have part2: "\<exists>!t. \<exists>r\<in>set ?routes. t = routeTriple r \<and> corresponds r key frag"
    if s: "?sch key = Some frag" for key frag
  proof -
    from schemas_sound[OF s] obtain kind n
      where o: "(kind, n) \<in> ?objs" and k: "key = ?e @ ''_'' @ n" and x: "xKind frag = kind"
      by blast
    from objects_routes[OF o] obtain r
      where r: "r \<in> set ?routes" "routeKind r = kind" "routeObjectName r = n" by blast
    from routes_objects[OF r(1)] have "routeEndpoint r = ?e" by simp
    with r k x have c: "corresponds r key frag"
      by (simp add: corresponds_def fragmentKey_def)
    have u: "routeTriple r' = routeTriple r"
      if r': "r' \<in> set ?routes" and c': "corresponds r' key frag" for r'
    proof -
      from routes_objects[OF r'] routes_objects[OF r(1)]
      have e: "routeEndpoint r' = routeEndpoint r"
        and a: "routeName r' = None \<longleftrightarrow> routeKind r' = ''a''"
               "routeName r = None \<longleftrightarrow> routeKind r = ''a''" by simp_all
      from c c' have kk: "routeKind r' = routeKind r" and fk: "fragmentKey r' = fragmentKey r"
        by (simp_all add: corresponds_def)
      from fk e have "routeObjectName r' = routeObjectName r" by (simp add: fragmentKey_def)
      with a kk have "routeName r' = routeName r"
        by (cases "routeName r'"; cases "routeName r") (auto simp: routeObjectName_def)
      with e kk show ?thesis by (simp add: routeTriple_def)
    qed
    show ?thesis
    proof (rule ex1I[of _ "routeTriple r"])
      show "\<exists>r'\<in>set ?routes. routeTriple r = routeTriple r' \<and> corresponds r' key frag"
        using r(1) c by blast
    next
      fix t
      assume "\<exists>r'\<in>set ?routes. t = routeTriple r' \<and> corresponds r' key frag"
      then show "t = routeTriple r" using u by blast
    qed
  qed
  from part1 part2 show ?thesis unfolding routesMatchSchemas_def by blast
qed

text \<open>
  The theorem for an endpoint with the example table, a view of another name and the
  advanced route.
\<close>

theorem routes_match_schemas_witness:
  "routesMatchSchemas
     (fst (setupDynamicRoutes \<lparr>cfgEndpoint = Some ''api'', cfgAdvanced = True\<rparr>
             \<lparr>tables = [exampleTable], views = [exampleView\<lparr>table := ''WidgetReport''\<rparr>],
              procs = [], funcs = []\<rparr>))
     (snd (setupDynamicRoutes \<lparr>cfgEndpoint = Some ''api'', cfgAdvanced = True\<rparr>
             \<lparr>tables = [exampleTable], views = [exampleView\<lparr>table := ''WidgetReport''\<rparr>],
              procs = [], funcs = []\<rparr>))"
proof -
  let ?cfg = "\<lparr>cfgEndpoint = Some ''api'', cfgAdvanced = True\<rparr>"
  let ?found = "\<lparr>tables = [exampleTable], views = [exampleView\<lparr>table := ''WidgetReport''\<rparr>],
              procs = [], funcs = []\<rparr>"
  have o: "discoveredObjects ?cfg ?found =
             [(''t'', ''Widgets''), (''v'', ''WidgetReport''), (''a'', ''advanced'')]"
    by (simp add: discoveredObjects_def exampleTable_def exampleView_def)
  have h: "\<forall>(k, n)\<in>set (discoveredObjects ?cfg ?found).
             \<forall>(k', n')\<in>set (discoveredObjects ?cfg ?found). n = n' \<longrightarrow> k = k'"
    unfolding o by simp
  from routes_match_schemas[OF h] show ?thesis .
qed

text \<open>
  The claim as stated fails for a table and a view of the same name (in two schemas): both
  get their routes, and the entry of the view replaces the entry of the table under the
  one key, so the routes of the table have no entry of kind \<open>t\<close>.
\<close>

theorem same_name_table_and_view_diverge:
  "\<not> routesMatchSchemas
     (fst (setupDynamicRoutes \<lparr>cfgEndpoint = Some ''api'', cfgAdvanced = False\<rparr>
             \<lparr>tables = [exampleTable], views = [exampleView], procs = [], funcs = []\<rparr>))
     (snd (setupDynamicRoutes \<lparr>cfgEndpoint = Some ''api'', cfgAdvanced = False\<rparr>
             \<lparr>tables = [exampleTable], views = [exampleView], procs = [], funcs = []\<rparr>))"
proof
  let ?st = "setupDynamicRoutes \<lparr>cfgEndpoint = Some ''api'', cfgAdvanced = False\<rparr>
             \<lparr>tables = [exampleTable], views = [exampleView], procs = [], funcs = []\<rparr>"
  let ?r = "\<lparr>routeMethod = GET, routeEndpoint = ''api'', routeKind = ''t'',
             routeName = Some ''Widgets'', routeParam = None\<rparr>"
  assume m: "routesMatchSchemas (fst ?st) (snd ?st)"
  have r: "?r \<in> set (fst ?st)"
    by (simp add: setup_unfold Let_def endpointName_def registerRoutes_def exampleTable_def
        exampleView_def firstPk_def)
  have s: "snd ?st ''api_Widgets'' = Some (viewFragment exampleView)"
    by (simp add: setup_unfold Let_def endpointName_def exampleTable_def exampleView_def)
  have k: "fragmentKey ?r = ''api_Widgets''"
    by (simp add: fragmentKey_def routeObjectName_def)
  from m r obtain key frag where "snd ?st key = Some frag" "corresponds ?r key frag"
    unfolding routesMatchSchemas_def by blast
  with k s have "xKind (viewFragment exampleView) = ''t''"
    by (simp add: corresponds_def)
  then show False by (simp add: viewFragment_def)
qed

end
